theory Spec2Isabelle
  imports
    Complex_Main
    "HOL-Library.AList"
    "HOL-Library.Char_ord"
    "HOL-Library.List_Lexorder"
    "HOL-Library.Sublist"
    "HOL-Library.Log_Nat"
    "HOL-Library.Multiset"
begin

section \<open>JavaScript values used by the caching and usage layer\<close>

text \<open>
  The recipe application is written in JavaScript. Strings are modelled as
  \<^typ>\<open>string\<close>, a list of 8-bit code units; the order on strings is the
  lexicographic order on code units, which is the order of the default
  \<^verbatim>\<open>Array.prototype.sort()\<close>. Times are integers (milliseconds, the
  value of \<^verbatim>\<open>Date.now()\<close>). One synchronous method call reads the clock
  once.

  A plain object is an association list in the order in which
  \<^verbatim>\<open>Object.keys\<close> and \<^verbatim>\<open>JSON.stringify\<close> enumerate it: array-index
  keys first, in ascending numeric order, then the other keys in creation
  order. Parameter values are primitives.
\<close>

datatype jsval = JUndefined | JNull | JBool bool | JNum int | JStr string

type_synonym jsobj = "(string \<times> jsval) list"

definition isDigit :: "char \<Rightarrow> bool" where
  "isDigit c = (CHR ''0'' \<le> c \<and> c \<le> CHR ''9'')"

definition decimalValue :: "string \<Rightarrow> int" where
  "decimalValue s = foldl (\<lambda>n c. 10 * n + (of_char c - 48)) 0 s"

text \<open>An array index is the canonical decimal form of an integer below \<open>2^32 - 1\<close>.\<close>

definition arrayIndex :: "string \<Rightarrow> int option" where
  "arrayIndex s =
     (if s \<noteq> [] \<and> list_all isDigit s \<and> (hd s \<noteq> CHR ''0'' \<or> s = ''0'')
         \<and> decimalValue s \<le> 4294967294
      then Some (decimalValue s) else None)"

fun insertIndexKey :: "int \<Rightarrow> string \<Rightarrow> 'v \<Rightarrow> (string \<times> 'v) list \<Rightarrow> (string \<times> 'v) list" where
  "insertIndexKey n k v [] = [(k, v)]"
| "insertIndexKey n k v (p # ps) =
     (case arrayIndex (fst p) of
        Some m \<Rightarrow> if m < n then p # insertIndexKey n k v ps else (k, v) # p # ps
      | None \<Rightarrow> (k, v) # p # ps)"

text \<open>
  Creating or overwriting an own data property of an ordinary object: an
  existing property keeps its place, a new array-index key is placed among
  the index keys, any other new key goes to the end. This is what an object
  literal and object spread do.
\<close>

definition defineProperty :: "(string \<times> 'v) list \<Rightarrow> string \<Rightarrow> 'v \<Rightarrow> (string \<times> 'v) list" where
  "defineProperty obj k v =
     (if k \<in> fst ` set obj then AList.update k v obj
      else case arrayIndex k of
             Some n \<Rightarrow> insertIndexKey n k v obj
           | None \<Rightarrow> obj @ [(k, v)])"

text \<open>
  The assignment \<^verbatim>\<open>result[key] = value\<close> on an object created by a
  literal. The key \<^verbatim>\<open>__proto__\<close> reaches the prototype setter and
  creates no own property.
\<close>

definition assignProperty :: "(string \<times> 'v) list \<Rightarrow> string \<Rightarrow> 'v \<Rightarrow> (string \<times> 'v) list" where
  "assignProperty obj k v = (if k = ''__proto__'' then obj else defineProperty obj k v)"

text \<open>
  Reading an own property; an absent one reads as \<^verbatim>\<open>undefined\<close>. The keys
  read by this code are not properties of \<^verbatim>\<open>Object.prototype\<close>.
\<close>

definition getProperty :: "jsobj \<Rightarrow> string \<Rightarrow> jsval" where
  "getProperty obj k = (case map_of obj k of Some v \<Rightarrow> v | None \<Rightarrow> JUndefined)"

definition truthy :: "jsval \<Rightarrow> bool" where
  "truthy v =
     (case v of
        JUndefined \<Rightarrow> False
      | JNull \<Rightarrow> False
      | JBool b \<Rightarrow> b
      | JNum n \<Rightarrow> n \<noteq> 0
      | JStr s \<Rightarrow> s \<noteq> [])"

subsection \<open>\<^verbatim>\<open>JSON.stringify\<close> on an object of primitives\<close>

definition digitChar :: "int \<Rightarrow> char" where
  "digitChar d = char_of (48 + d)"

text \<open>The decimal digits of a number that is not negative.\<close>

function showNat :: "int \<Rightarrow> string" where
  "showNat n = (if n < 10 then [digitChar n] else showNat (n div 10) @ [digitChar (n mod 10)])"
  by pat_completeness auto
termination
  by (relation "measure nat") auto

declare showNat.simps [simp del]

definition showInt :: "int \<Rightarrow> string" where
  "showInt i = (if i < 0 then CHR ''-'' # showNat (- i) else showNat i)"

definition hexDigit :: "int \<Rightarrow> char" where
  "hexDigit d = (if d < 10 then char_of (48 + d) else char_of (87 + d))"

definition escapeChar :: "char \<Rightarrow> string" where
  "escapeChar c =
     (let n = (of_char c :: int) in
      if n = 34 then [CHR 0x5C, c]
      else if n = 92 then [CHR 0x5C, c]
      else if n = 8 then [CHR 0x5C, CHR ''b'']
      else if n = 12 then [CHR 0x5C, CHR ''f'']
      else if n = 10 then [CHR 0x5C, CHR ''n'']
      else if n = 13 then [CHR 0x5C, CHR ''r'']
      else if n = 9 then [CHR 0x5C, CHR ''t'']
      else if n < 32 then
        [CHR 0x5C, CHR ''u'', CHR ''0'', CHR ''0'', hexDigit (n div 16), hexDigit (n mod 16)]
      else [c])"

definition quoteJSON :: "string \<Rightarrow> string" where
  "quoteJSON s = CHR 0x22 # concat (map escapeChar s) @ [CHR 0x22]"

text \<open>A property whose value is \<^verbatim>\<open>undefined\<close> is left out of the output.\<close>

definition stringifyValue :: "jsval \<Rightarrow> string option" where
  "stringifyValue v =
     (case v of
        JUndefined \<Rightarrow> None
      | JNull \<Rightarrow> Some ''null''
      | JBool b \<Rightarrow> Some (if b then ''true'' else ''false'')
      | JNum n \<Rightarrow> Some (showInt n)
      | JStr s \<Rightarrow> Some (quoteJSON s))"

fun joinWith :: "string \<Rightarrow> string list \<Rightarrow> string" where
  "joinWith sep [] = []"
| "joinWith sep [x] = x"
| "joinWith sep (x # y # ys) = x @ sep @ joinWith sep (y # ys)"

definition JSON_stringify :: "jsobj \<Rightarrow> string" where
  "JSON_stringify obj =
     ''{'' @ joinWith '',''
        (List.map_filter
           (\<lambda>(k, v). map_option (\<lambda>s. quoteJSON k @ '':'' @ s) (stringifyValue v)) obj)
      @ ''}''"

section \<open>JavaScript numbers\<close>

text \<open>
  A JavaScript number is an IEEE 754 double. The integers of this code
  (counters, list lengths, times) are far below \<open>2^53\<close> and are computed
  exactly; they are modelled as \<^typ>\<open>int\<close>. Where the code divides or
  multiplies by a fraction, the result is the exact rational result rounded
  to the nearest double, ties to even: \<open>double\<close> rounds a rational to 53
  significant bits. The exponent is not bounded, which leaves out overflow
  and subnormal results; neither occurs for the values computed here.
\<close>

text \<open>\<open>ilog2 x\<close> is the binary exponent of a positive rational: \<open>2^e \<le> x < 2^(e+1)\<close>.\<close>

definition ilog2 :: "rat \<Rightarrow> int" where
  "ilog2 x =
     (let (a, b) = quotient_of x;
          k = bitlen a - bitlen b
      in if 2 powi k \<le> x then k else k - 1)"

definition roundHalfEven :: "rat \<Rightarrow> int" where
  "roundHalfEven x =
     (let f = \<lfloor>x\<rfloor>; d = x - of_int f
      in if d < 1 / 2 then f else if 1 / 2 < d then f + 1 else if even f then f else f + 1)"

definition double :: "rat \<Rightarrow> rat" where
  "double x =
     (if x = 0 then 0
      else let e = ilog2 \<bar>x\<bar>; u = 2 powi (e - 52)
           in sgn x * of_int (roundHalfEven (\<bar>x\<bar> / u)) * u)"


definition fmul :: "rat \<Rightarrow> rat \<Rightarrow> rat" where
  "fmul a b = double (a * b)"

text \<open>Division by a non-zero number; the callers handle a zero divisor before.\<close>

definition fdiv :: "rat \<Rightarrow> rat \<Rightarrow> rat" where
  "fdiv a b = double (a / b)"

text \<open>\<^verbatim>\<open>Math.round\<close>: the nearest integer, a tie going up.\<close>

definition Math_round :: "rat \<Rightarrow> int" where
  "Math_round x = \<lfloor>x + 1 / 2\<rfloor>"

section \<open>CacheManager: the bounded cache with expiry\<close>

text \<open>
  \<^verbatim>\<open>this.cache\<close> is a JavaScript \<^verbatim>\<open>Map\<close>: an association list with
  distinct keys in insertion order. \<^verbatim>\<open>Map.set\<close> on a present key keeps
  its position, on a new key appends; \<^verbatim>\<open>Map.delete\<close> removes the pair.
\<close>

record 'v cacheItem =
  data :: 'v
  expiresAt :: int
  lastAccessed :: int
  createdAt :: int

type_synonym 'v cache = "(string \<times> 'v cacheItem) list"

definition maxCacheSize :: nat where
  "maxCacheSize = 100"

definition defaultTTL :: int where
  "defaultTTL = 30 * 60 * 1000"

definition generateKey :: "string \<Rightarrow> jsobj \<Rightarrow> string" where
  "generateKey endpoint params =
     (let sortedParams =
            foldl (\<lambda>result key. assignProperty result key (getProperty params key))
              [] (sort (map fst params))
      in endpoint @ '':'' @ JSON_stringify sortedParams)"

text \<open>
  \<^verbatim>\<open>get(key)\<close>: \<open>None\<close> is the \<^verbatim>\<open>null\<close> of a miss. An expired entry is
  deleted by the read; a hit refreshes \<^verbatim>\<open>lastAccessed\<close> in place.
\<close>

definition get :: "'v cache \<Rightarrow> string \<Rightarrow> int \<Rightarrow> 'v option \<times> 'v cache" where
  "get c key now =
     (case map_of c key of
        None \<Rightarrow> (None, c)
      | Some cached \<Rightarrow>
          if now > expiresAt cached then (None, AList.delete key c)
          else (Some (data cached), AList.update key (cached\<lparr>lastAccessed := now\<rparr>) c))"

text \<open>
  The number of entries the second pass removes,
  \<^verbatim>\<open>Math.floor(this.maxCacheSize * 0.3)\<close>, in double arithmetic.
\<close>

definition lruTrimCount :: nat where
  "lruTrimCount = nat \<lfloor>fmul (of_nat maxCacheSize) (double (3 / 10))\<rfloor>"

definition cleanup :: "'v cache \<Rightarrow> int \<Rightarrow> 'v cache" where
  "cleanup c now =
     (let entries = c;
          c1 = foldl (\<lambda>m (key, item). if now > expiresAt item then AList.delete key m else m)
                 c entries
      in if length c1 \<ge> maxCacheSize then
           (let sortedEntries = sort_key (\<lambda>(key, item). lastAccessed item) c1;
                itemsToRemove = take lruTrimCount sortedEntries
            in foldl (\<lambda>m (key, item). AList.delete key m) c1 itemsToRemove)
         else c1)"

definition set_c :: "'v cache \<Rightarrow> string \<Rightarrow> 'v \<Rightarrow> int \<Rightarrow> int \<Rightarrow> 'v cache" where
  "set_c c key d ttl now =
     (let c1 = (if length c \<ge> maxCacheSize then cleanup c now else c);
          cacheItem = \<lparr>data = d, expiresAt = now + ttl, lastAccessed = now, createdAt = now\<rparr>
      in AList.update key cacheItem c1)"

definition clear :: "'v cache \<Rightarrow> 'v cache" where
  "clear c = []"

definition has :: "'v cache \<Rightarrow> string \<Rightarrow> int \<Rightarrow> bool \<times> 'v cache" where
  "has c key now = (case get c key now of (r, c') \<Rightarrow> (r \<noteq> None, c'))"

section \<open>APIUsageManager: the usage ledger\<close>

text \<open>
  The ledger lives in one \<^verbatim>\<open>localStorage\<close> slot as JSON text. The slot is
  empty, or holds something that cannot be read back as a ledger (reading
  or parsing throws and the \<^verbatim>\<open>catch\<close> branch runs), or holds a ledger
  that this code wrote. A write can be refused by the browser; the code
  catches that and goes on.
\<close>

text \<open>
  What the ledger holds for an endpoint: a count, or, after an endpoint
  named like a member of \<^verbatim>\<open>Object.prototype\<close> was recorded, a string,
  namely the text of that member followed by a number of digits 1.
\<close>

datatype tally = Count int | MemberText string nat

record usageData =
  date :: string
  calls :: int
  endpoints :: "(string \<times> tally) list"
  lastReset :: int
  errors :: int
  cached :: int

datatype storedItem = NoItem | Unreadable | Item usageData

record storage =
  stored :: storedItem
  writable :: bool

text \<open>The clock as one synchronous call reads it: \<^verbatim>\<open>Date.now()\<close> and
  \<^verbatim>\<open>new Date().toDateString()\<close>.\<close>

record clock =
  dateNow :: int
  dateString :: string

definition dailyLimit :: int where
  "dailyLimit = 150"

definition warningThreshold :: rat where
  "warningThreshold = double (8 / 10)"

definition criticalThreshold :: rat where
  "criticalThreshold = double (95 / 100)"

definition createNewUsageData :: "clock \<Rightarrow> usageData" where
  "createNewUsageData clk =
     \<lparr>date = dateString clk, calls = 0, endpoints = [], lastReset = dateNow clk,
      errors = 0, cached = 0\<rparr>"

definition getUsageData :: "storage \<Rightarrow> clock \<Rightarrow> usageData" where
  "getUsageData st clk =
     (case stored st of
        NoItem \<Rightarrow> createNewUsageData clk
      | Unreadable \<Rightarrow> createNewUsageData clk
      | Item d \<Rightarrow> if date d \<noteq> dateString clk then createNewUsageData clk else d)"

definition saveUsageData :: "storage \<Rightarrow> usageData \<Rightarrow> storage" where
  "saveUsageData st d = (if writable st then st\<lparr>stored := Item d\<rparr> else st)"

text \<open>The names of the members of \<^verbatim>\<open>Object.prototype\<close>.\<close>

definition objectPrototypeNames :: "string list" where
  "objectPrototypeNames =
     [''constructor'', ''hasOwnProperty'', ''isPrototypeOf'', ''propertyIsEnumerable'',
      ''toLocaleString'', ''toString'', ''valueOf'', ''__proto__'',
      ''__defineGetter__'', ''__defineSetter__'', ''__lookupGetter__'', ''__lookupSetter__'']"

text \<open>
  \<^verbatim>\<open>(data.endpoints[endpoint] || 0) + 1\<close>. The read finds the own property,
  or else a member that \<^verbatim>\<open>Object.prototype\<close> has under that name, or else
  \<^verbatim>\<open>undefined\<close>. A count that is not zero is truthy and is incremented; a
  string that is not empty is truthy and \<^verbatim>\<open>+ 1\<close> appends the digit 1 to
  it; an inherited member is truthy and \<^verbatim>\<open>+ 1\<close> appends the digit 1 to
  its text; in every other case the result is \<^verbatim>\<open>0 + 1\<close>.
\<close>

definition nextTally :: "(string \<times> tally) list \<Rightarrow> string \<Rightarrow> tally" where
  "nextTally counts endpoint =
     (case map_of counts endpoint of
        Some (Count n) \<Rightarrow> Count ((if n \<noteq> 0 then n else 0) + 1)
      | Some (MemberText member k) \<Rightarrow> MemberText member (Suc k)
      | None \<Rightarrow>
          if endpoint \<in> set objectPrototypeNames then MemberText endpoint 1
          else Count (0 + 1))"

text \<open>\<^verbatim>\<open>recordCall\<close> returns the updated ledger; the model returns the store too.\<close>

definition recordCall :: "storage \<Rightarrow> clock \<Rightarrow> string \<Rightarrow> bool \<Rightarrow> usageData \<times> storage" where
  "recordCall st clk endpoint success =
     (let d = getUsageData st clk;
          d' = (if success then
                  d\<lparr>calls := calls d + 1,
                    endpoints :=
                      assignProperty (endpoints d) endpoint (nextTally (endpoints d) endpoint)\<rparr>
                else d\<lparr>errors := errors d + 1\<rparr>)
      in (d', saveUsageData st d'))"

definition recordCacheHit :: "storage \<Rightarrow> clock \<Rightarrow> usageData \<times> storage" where
  "recordCacheHit st clk =
     (let d = getUsageData st clk;
          d' = d\<lparr>cached := cached d + 1\<rparr>
      in (d', saveUsageData st d'))"

datatype usageStatus = Normal | Warning | Critical

definition getUsageStatus :: "rat \<Rightarrow> usageStatus" where
  "getUsageStatus usagePercent =
     (if usagePercent \<ge> fmul criticalThreshold 100 then Critical
      else if usagePercent \<ge> fmul warningThreshold 100 then Warning
      else Normal)"

record usageStats =
  stats_calls :: int
  stats_remaining :: int
  stats_limit :: int
  stats_usagePercent :: rat
  stats_date :: string
  stats_endpoints :: "(string \<times> tally) list"
  stats_errors :: int
  stats_cached :: int
  stats_status :: usageStatus
  stats_canMakeCall :: bool

definition getUsageStats :: "storage \<Rightarrow> clock \<Rightarrow> usageStats" where
  "getUsageStats st clk =
     (let d = getUsageData st clk;
          usagePercent = fmul (fdiv (of_int (calls d)) (of_int dailyLimit)) 100;
          remaining = max 0 (dailyLimit - calls d)
      in \<lparr>stats_calls = calls d,
          stats_remaining = remaining,
          stats_limit = dailyLimit,
          stats_usagePercent = fdiv (of_int (Math_round (fmul usagePercent 100))) 100,
          stats_date = date d,
          stats_endpoints = endpoints d,
          stats_errors = errors d,
          stats_cached = cached d,
          stats_status = getUsageStatus usagePercent,
          stats_canMakeCall = (calls d < dailyLimit)\<rparr>)"

definition canMakeCall :: "storage \<Rightarrow> clock \<Rightarrow> bool" where
  "canMakeCall st clk = (calls (getUsageData st clk) < dailyLimit)"

definition resetUsage :: "storage \<Rightarrow> clock \<Rightarrow> usageData \<times> storage" where
  "resetUsage st clk =
     (let newData = createNewUsageData clk in (newData, saveUsageData st newData))"

section \<open>The local recipe catalogue and its matchers\<close>

subsection \<open>String methods\<close>

text \<open>\<^verbatim>\<open>toLowerCase\<close> on 8-bit code units: A to Z and the accented capitals of Latin-1.\<close>

definition toLowerChar :: "char \<Rightarrow> char" where
  "toLowerChar c =
     (let n = (of_char c :: int) in
      if (65 \<le> n \<and> n \<le> 90) \<or> (192 \<le> n \<and> n \<le> 222 \<and> n \<noteq> 215)
      then char_of (n + 32) else c)"

definition toLowerCase :: "string \<Rightarrow> string" where
  "toLowerCase s = map toLowerChar s"

text \<open>\<^verbatim>\<open>s.includes(t)\<close>: \<open>t\<close> occurs in \<open>s\<close> as a contiguous substring.\<close>

definition includes_str :: "string \<Rightarrow> string \<Rightarrow> bool" where
  "includes_str s t = sublist t s"



subsection \<open>The bundled recipes\<close>

text \<open>
  A recipe of the bundled catalogue. The image addresses of the source are
  left out; no function modelled here reads them.
\<close>

record recipe =
  recipeId :: int
  title :: string
  readyInMinutes :: int
  servings :: int
  summary :: string
  healthScore :: int
  spoonacularScore :: int
  pricePerServing :: rat
  category :: string
  cuisine :: string
  vegetarian :: bool

definition recipeDatabase :: "recipe list" where
  "recipeDatabase = [
     \<lparr>recipeId = 1, title = ''Paneer Butter Masala'',
      readyInMinutes = 45, servings = 4,
      summary = ''Rich and creamy tomato-based curry with soft paneer cubes, perfect with naan or rice.'',
      healthScore = 72, spoonacularScore = 88, pricePerServing = 3.80,
      category = ''Main Course - Vegetarian'', cuisine = ''Indian'', vegetarian = True\<rparr>,
     \<lparr>recipeId = 2, title = ''Palak Paneer'',
      readyInMinutes = 40, servings = 4,
      summary = ''Creamy spinach curry with paneer cubes, packed with iron and flavor.'',
      healthScore = 85, spoonacularScore = 90, pricePerServing = 3.50,
      category = ''Main Course - Vegetarian'', cuisine = ''Indian'', vegetarian = True\<rparr>,
     \<lparr>recipeId = 3, title = ''Dal Makhani'',
      readyInMinutes = 90, servings = 6,
      summary = ''Slow-cooked black lentils in rich, creamy tomato gravy - a North Indian classic.'',
      healthScore = 78, spoonacularScore = 92, pricePerServing = 2.80,
      category = ''Main Course - Vegetarian'', cuisine = ''Indian'', vegetarian = True\<rparr>,
     \<lparr>recipeId = 4, title = ''Veg Biryani'',
      readyInMinutes = 60, servings = 6,
      summary = ''Aromatic basmati rice layered with spiced vegetables and herbs.'',
      healthScore = 75, spoonacularScore = 89, pricePerServing = 4.20,
      category = ''Main Course - Vegetarian'', cuisine = ''Indian'', vegetarian = True\<rparr>,
     \<lparr>recipeId = 5, title = ''Chana Masala'',
      readyInMinutes = 35, servings = 4,
      summary = ''Spiced chickpea curry in tomato and onion gravy, a popular North Indian dish.'',
      healthScore = 82, spoonacularScore = 87, pricePerServing = 2.50,
      category = ''Main Course - Vegetarian'', cuisine = ''Indian'', vegetarian = True\<rparr>,
     \<lparr>recipeId = 6, title = ''Rajma'',
      readyInMinutes = 60, servings = 4,
      summary = ''Kidney beans cooked in spiced tomato gravy, perfect with rice.'',
      healthScore = 80, spoonacularScore = 85, pricePerServing = 2.80,
      category = ''Main Course - Vegetarian'', cuisine = ''Indian'', vegetarian = True\<rparr>,
     \<lparr>recipeId = 7, title = ''Baingan Bharta'',
      readyInMinutes = 45, servings = 4,
      summary = ''Smoky roasted eggplant cooked with onions, tomatoes, and spices.'',
      healthScore = 75, spoonacularScore = 83, pricePerServing = 2.20,
      category = ''Main Course - Vegetarian'', cuisine = ''Indian'', vegetarian = True\<rparr>,
     \<lparr>recipeId = 8, title = ''Aloo Gobi'',
      readyInMinutes = 30, servings = 4,
      summary = ''Dry curry of potatoes and cauliflower with aromatic spices.'',
      healthScore = 78, spoonacularScore = 84, pricePerServing = 2.00,
      category = ''Main Course - Vegetarian'', cuisine = ''Indian'', vegetarian = True\<rparr>,
     \<lparr>recipeId = 9, title = ''Kadai Paneer'',
      readyInMinutes = 40, servings = 4,
      summary = ''Paneer cooked with bell peppers and onions in spicy tomato gravy.'',
      healthScore = 73, spoonacularScore = 86, pricePerServing = 3.60,
      category = ''Main Course - Vegetarian'', cuisine = ''Indian'', vegetarian = True\<rparr>,
     \<lparr>recipeId = 10, title = ''Malai Kofta'',
      readyInMinutes = 50, servings = 4,
      summary = ''Deep-fried cottage cheese and potato balls in rich creamy tomato gravy.'',
      healthScore = 68, spoonacularScore = 90, pricePerServing = 4.20,
      category = ''Main Course - Vegetarian'', cuisine = ''Indian'', vegetarian = True\<rparr>,
     \<lparr>recipeId = 61, title = ''Classic Margherita Pizza'',
      readyInMinutes = 25, servings = 4,
      summary = ''Traditional Italian pizza with fresh mozzarella, tomatoes, and basil.'',
      healthScore = 65, spoonacularScore = 89, pricePerServing = 3.50,
      category = ''Main Course'', cuisine = ''Italian'', vegetarian = True\<rparr>,
     \<lparr>recipeId = 62, title = ''Spaghetti Carbonara'',
      readyInMinutes = 20, servings = 4,
      summary = ''Creamy Italian pasta with eggs, cheese, and pancetta.'',
      healthScore = 68, spoonacularScore = 92, pricePerServing = 4.20,
      category = ''Main Course'', cuisine = ''Italian'', vegetarian = False\<rparr>,
     \<lparr>recipeId = 63, title = ''Chicken Stir Fry'',
      readyInMinutes = 15, servings = 4,
      summary = ''Quick and healthy stir-fried chicken with mixed vegetables.'',
      healthScore = 82, spoonacularScore = 85, pricePerServing = 5.00,
      category = ''Main Course'', cuisine = ''Asian'', vegetarian = False\<rparr>,
     \<lparr>recipeId = 64, title = ''Caesar Salad'',
      readyInMinutes = 10, servings = 2,
      summary = ''Fresh romaine lettuce with parmesan cheese and classic caesar dressing.'',
      healthScore = 75, spoonacularScore = 80, pricePerServing = 3.00,
      category = ''Appetizer'', cuisine = ''American'', vegetarian = True\<rparr>,
     \<lparr>recipeId = 65, title = ''Chocolate Chip Cookies'',
      readyInMinutes = 25, servings = 24,
      summary = ''Classic homemade chocolate chip cookies, crispy outside and chewy inside.'',
      healthScore = 45, spoonacularScore = 95, pricePerServing = 0.75,
      category = ''Dessert'', cuisine = ''American'', vegetarian = True\<rparr>,
     \<lparr>recipeId = 11, title = ''Chicken Biryani'',
      readyInMinutes = 75, servings = 6,
      summary = ''Fragrant basmati rice layered with marinated chicken and aromatic spices.'',
      healthScore = 70, spoonacularScore = 95, pricePerServing = 5.50,
      category = ''Main Course - Non-Vegetarian'', cuisine = ''Indian'', vegetarian = False\<rparr>,
     \<lparr>recipeId = 12, title = ''Butter Chicken'',
      readyInMinutes = 50, servings = 4,
      summary = ''Tender chicken in rich, creamy tomato-based sauce with butter and cream.'',
      healthScore = 68, spoonacularScore = 94, pricePerServing = 6.20,
      category = ''Main Course - Non-Vegetarian'', cuisine = ''Indian'', vegetarian = False\<rparr>,
     \<lparr>recipeId = 13, title = ''Chicken Tikka Masala'',
      readyInMinutes = 45, servings = 4,
      summary = ''Grilled chicken tikka in spiced curry sauce with onions and peppers.'',
      healthScore = 72, spoonacularScore = 91, pricePerServing = 5.80,
      category = ''Main Course - Non-Vegetarian'', cuisine = ''Indian'', vegetarian = False\<rparr>,
     \<lparr>recipeId = 14, title = ''Rogan Josh'',
      readyInMinutes = 90, servings = 6,
      summary = ''Aromatic Kashmiri mutton curry with rich red gravy and traditional spices.'',
      healthScore = 75, spoonacularScore = 88, pricePerServing = 7.20,
      category = ''Main Course - Non-Vegetarian'', cuisine = ''Indian'', vegetarian = False\<rparr>,
     \<lparr>recipeId = 15, title = ''Chicken Curry'',
      readyInMinutes = 40, servings = 4,
      summary = ''Traditional chicken curry with onions, tomatoes, and aromatic spices.'',
      healthScore = 74, spoonacularScore = 87, pricePerServing = 5.20,
      category = ''Main Course - Non-Vegetarian'', cuisine = ''Indian'', vegetarian = False\<rparr>,
     \<lparr>recipeId = 16, title = ''Fish Curry'',
      readyInMinutes = 35, servings = 4,
      summary = ''Fresh fish cooked in coconut milk and spices, a coastal Indian delicacy.'',
      healthScore = 78, spoonacularScore = 89, pricePerServing = 6.80,
      category = ''Main Course - Non-Vegetarian'', cuisine = ''Indian'', vegetarian = False\<rparr>,
     \<lparr>recipeId = 17, title = ''Mutton Biryani'',
      readyInMinutes = 120, servings = 8,
      summary = ''Royal mutton biryani with aromatic basmati rice and tender meat pieces.'',
      healthScore = 72, spoonacularScore = 93, pricePerServing = 8.50,
      category = ''Main Course - Non-Vegetarian'', cuisine = ''Indian'', vegetarian = False\<rparr>,
     \<lparr>recipeId = 18, title = ''Chicken Korma'',
      readyInMinutes = 55, servings = 4,
      summary = ''Mild and creamy chicken curry with yogurt, nuts, and aromatic spices.'',
      healthScore = 70, spoonacularScore = 88, pricePerServing = 6.00,
      category = ''Main Course - Non-Vegetarian'', cuisine = ''Indian'', vegetarian = False\<rparr>,
     \<lparr>recipeId = 19, title = ''Tandoori Chicken'',
      readyInMinutes = 60, servings = 4,
      summary = ''Marinated chicken roasted in tandoor oven with yogurt and spices.'',
      healthScore = 76, spoonacularScore = 90, pricePerServing = 5.80,
      category = ''Main Course - Non-Vegetarian'', cuisine = ''Indian'', vegetarian = False\<rparr>,
     \<lparr>recipeId = 20, title = ''Keema Curry'',
      readyInMinutes = 45, servings = 4,
      summary = ''Spiced minced meat curry with peas and aromatic Indian spices.'',
      healthScore = 73, spoonacularScore = 86, pricePerServing = 5.50,
      category = ''Main Course - Non-Vegetarian'', cuisine = ''Indian'', vegetarian = False\<rparr>,
     \<lparr>recipeId = 21, title = ''Pani Puri'',
      readyInMinutes = 30, servings = 4,
      summary = ''Crispy hollow puris filled with spicy, tangy water and chutneys.'',
      healthScore = 60, spoonacularScore = 85, pricePerServing = 1.50,
      category = ''Street Food & Snacks'', cuisine = ''Indian'', vegetarian = True\<rparr>,
     \<lparr>recipeId = 22, title = ''Pav Bhaji'',
      readyInMinutes = 40, servings = 4,
      summary = ''Thick vegetable curry served with buttered bread rolls - Mumbai street food favorite.'',
      healthScore = 65, spoonacularScore = 87, pricePerServing = 2.80,
      category = ''Street Food & Snacks'', cuisine = ''Indian'', vegetarian = True\<rparr>,
     \<lparr>recipeId = 23, title = ''Samosa'',
      readyInMinutes = 45, servings = 6,
      summary = ''Crispy triangular pastries stuffed with spiced potatoes and peas.'',
      healthScore = 58, spoonacularScore = 89, pricePerServing = 1.20,
      category = ''Street Food & Snacks'', cuisine = ''Indian'', vegetarian = True\<rparr>,
     \<lparr>recipeId = 24, title = ''Dhokla'',
      readyInMinutes = 25, servings = 4,
      summary = ''Steamed savory cake made from fermented gram flour batter - Gujarati specialty.'',
      healthScore = 80, spoonacularScore = 82, pricePerServing = 2.00,
      category = ''Street Food & Snacks'', cuisine = ''Indian'', vegetarian = True\<rparr>,
     \<lparr>recipeId = 25, title = ''Chaat'',
      readyInMinutes = 20, servings = 2,
      summary = ''Mixed street food snack with chutneys, yogurt, and crispy sev.'',
      healthScore = 62, spoonacularScore = 84, pricePerServing = 1.80,
      category = ''Street Food & Snacks'', cuisine = ''Indian'', vegetarian = True\<rparr>,
     \<lparr>recipeId = 26, title = ''Vada Pav'',
      readyInMinutes = 30, servings = 4,
      summary = (''Deep-fried potato dumpling served in bread bun with chutneys - Mumbai'' @ [CHR 0x27] @ ''s burger.''),
      healthScore = 55, spoonacularScore = 88, pricePerServing = 1.50,
      category = ''Street Food & Snacks'', cuisine = ''Indian'', vegetarian = True\<rparr>,
     \<lparr>recipeId = 27, title = ''Bhel Puri'',
      readyInMinutes = 15, servings = 2,
      summary = ''Crunchy puffed rice mixed with vegetables, chutneys, and sev.'',
      healthScore = 58, spoonacularScore = 83, pricePerServing = 1.20,
      category = ''Street Food & Snacks'', cuisine = ''Indian'', vegetarian = True\<rparr>,
     \<lparr>recipeId = 28, title = ''Dahi Puri'',
      readyInMinutes = 20, servings = 4,
      summary = ''Crispy puris topped with yogurt, chutneys, and spiced water.'',
      healthScore = 60, spoonacularScore = 85, pricePerServing = 1.60,
      category = ''Street Food & Snacks'', cuisine = ''Indian'', vegetarian = True\<rparr>,
     \<lparr>recipeId = 29, title = ''Aloo Tikki'',
      readyInMinutes = 25, servings = 4,
      summary = ''Crispy potato patties served with chutneys and yogurt.'',
      healthScore = 56, spoonacularScore = 86, pricePerServing = 1.40,
      category = ''Street Food & Snacks'', cuisine = ''Indian'', vegetarian = True\<rparr>,
     \<lparr>recipeId = 30, title = ''Kachori'',
      readyInMinutes = 35, servings = 6,
      summary = ''Deep-fried bread stuffed with spiced lentils or onions.'',
      healthScore = 54, spoonacularScore = 87, pricePerServing = 1.30,
      category = ''Street Food & Snacks'', cuisine = ''Indian'', vegetarian = True\<rparr>,
     \<lparr>recipeId = 31, title = ''Garlic Naan'',
      readyInMinutes = 30, servings = 4,
      summary = ''Soft, pillowy bread topped with garlic and cilantro, baked in tandoor.'',
      healthScore = 62, spoonacularScore = 86, pricePerServing = 1.80,
      category = ''Breads & Rice'', cuisine = ''Indian'', vegetarian = True\<rparr>,
     \<lparr>recipeId = 32, title = ''Aloo Paratha'',
      readyInMinutes = 35, servings = 4,
      summary = ''Stuffed flatbread with spiced potato filling, served with butter and yogurt.'',
      healthScore = 68, spoonacularScore = 88, pricePerServing = 2.20,
      category = ''Breads & Rice'', cuisine = ''Indian'', vegetarian = True\<rparr>,
     \<lparr>recipeId = 33, title = ''Jeera Rice'',
      readyInMinutes = 20, servings = 4,
      summary = ''Fragrant basmati rice tempered with cumin seeds and ghee.'',
      healthScore = 70, spoonacularScore = 80, pricePerServing = 1.50,
      category = ''Breads & Rice'', cuisine = ''Indian'', vegetarian = True\<rparr>,
     \<lparr>recipeId = 34, title = ''Butter Naan'',
      readyInMinutes = 25, servings = 4,
      summary = ''Classic tandoor bread brushed with butter, perfect with curries.'',
      healthScore = 60, spoonacularScore = 85, pricePerServing = 1.60,
      category = ''Breads & Rice'', cuisine = ''Indian'', vegetarian = True\<rparr>,
     \<lparr>recipeId = 35, title = ''Roti'',
      readyInMinutes = 20, servings = 6,
      summary = ''Traditional whole wheat flatbread, a staple of Indian cuisine.'',
      healthScore = 75, spoonacularScore = 82, pricePerServing = 0.80,
      category = ''Breads & Rice'', cuisine = ''Indian'', vegetarian = True\<rparr>,
     \<lparr>recipeId = 36, title = ''Pulao'',
      readyInMinutes = 30, servings = 4,
      summary = ''Aromatic rice dish cooked with whole spices and vegetables.'',
      healthScore = 72, spoonacularScore = 84, pricePerServing = 2.50,
      category = ''Breads & Rice'', cuisine = ''Indian'', vegetarian = True\<rparr>,
     \<lparr>recipeId = 37, title = ''Lemon Rice'',
      readyInMinutes = 15, servings = 4,
      summary = ''Tangy South Indian rice dish with lemon juice and curry leaves.'',
      healthScore = 68, spoonacularScore = 81, pricePerServing = 1.20,
      category = ''Breads & Rice'', cuisine = ''Indian'', vegetarian = True\<rparr>,
     \<lparr>recipeId = 38, title = ''Stuffed Kulcha'',
      readyInMinutes = 40, servings = 4,
      summary = ''Leavened bread stuffed with spiced onions or paneer.'',
      healthScore = 63, spoonacularScore = 87, pricePerServing = 2.00,
      category = ''Breads & Rice'', cuisine = ''Indian'', vegetarian = True\<rparr>,
     \<lparr>recipeId = 39, title = ''Coconut Rice'',
      readyInMinutes = 25, servings = 4,
      summary = ''Fragrant rice cooked with coconut milk and South Indian spices.'',
      healthScore = 70, spoonacularScore = 83, pricePerServing = 1.80,
      category = ''Breads & Rice'', cuisine = ''Indian'', vegetarian = True\<rparr>,
     \<lparr>recipeId = 40, title = ''Chapati'',
      readyInMinutes = 15, servings = 6,
      summary = ''Thin unleavened flatbread made from whole wheat flour.'',
      healthScore = 78, spoonacularScore = 80, pricePerServing = 0.60,
      category = ''Breads & Rice'', cuisine = ''Indian'', vegetarian = True\<rparr>,
     \<lparr>recipeId = 41, title = ''Gulab Jamun'',
      readyInMinutes = 45, servings = 8,
      summary = ''Deep-fried milk dumplings soaked in rose-flavored sugar syrup.'',
      healthScore = 45, spoonacularScore = 92, pricePerServing = 1.80,
      category = ''Desserts & Sweets'', cuisine = ''Indian'', vegetarian = True\<rparr>,
     \<lparr>recipeId = 42, title = ''Kheer'',
      readyInMinutes = 60, servings = 6,
      summary = ''Creamy rice pudding flavored with cardamom, nuts, and saffron.'',
      healthScore = 55, spoonacularScore = 85, pricePerServing = 2.20,
      category = ''Desserts & Sweets'', cuisine = ''Indian'', vegetarian = True\<rparr>,
     \<lparr>recipeId = 43, title = ''Jalebi'',
      readyInMinutes = 30, servings = 6,
      summary = ''Spiral-shaped deep-fried sweet soaked in saffron sugar syrup.'',
      healthScore = 40, spoonacularScore = 88, pricePerServing = 1.50,
      category = ''Desserts & Sweets'', cuisine = ''Indian'', vegetarian = True\<rparr>,
     \<lparr>recipeId = 44, title = ''Rasgulla'',
      readyInMinutes = 40, servings = 8,
      summary = ''Spongy cottage cheese balls cooked in light sugar syrup.'',
      healthScore = 50, spoonacularScore = 89, pricePerServing = 1.40,
      category = ''Desserts & Sweets'', cuisine = ''Indian'', vegetarian = True\<rparr>,
     \<lparr>recipeId = 45, title = ''Kulfi'',
      readyInMinutes = 240, servings = 6,
      summary = ''Traditional Indian ice cream made with reduced milk and cardamom.'',
      healthScore = 48, spoonacularScore = 90, pricePerServing = 2.00,
      category = ''Desserts & Sweets'', cuisine = ''Indian'', vegetarian = True\<rparr>,
     \<lparr>recipeId = 46, title = ''Laddu'',
      readyInMinutes = 25, servings = 10,
      summary = ''Sweet ball-shaped treats made from flour, ghee, and sugar.'',
      healthScore = 42, spoonacularScore = 87, pricePerServing = 1.20,
      category = ''Desserts & Sweets'', cuisine = ''Indian'', vegetarian = True\<rparr>,
     \<lparr>recipeId = 47, title = ''Halwa'',
      readyInMinutes = 35, servings = 6,
      summary = ''Dense sweet made from semolina, ghee, sugar, and nuts.'',
      healthScore = 44, spoonacularScore = 86, pricePerServing = 1.80,
      category = ''Desserts & Sweets'', cuisine = ''Indian'', vegetarian = True\<rparr>,
     \<lparr>recipeId = 48, title = ''Barfi'',
      readyInMinutes = 30, servings = 12,
      summary = ''Diamond-shaped milk fudge sweet flavored with cardamom and nuts.'',
      healthScore = 46, spoonacularScore = 88, pricePerServing = 1.60,
      category = ''Desserts & Sweets'', cuisine = ''Indian'', vegetarian = True\<rparr>,
     \<lparr>recipeId = 49, title = ''Payasam'',
      readyInMinutes = 45, servings = 6,
      summary = ''South Indian sweet pudding made with vermicelli and milk.'',
      healthScore = 52, spoonacularScore = 84, pricePerServing = 2.00,
      category = ''Desserts & Sweets'', cuisine = ''Indian'', vegetarian = True\<rparr>,
     \<lparr>recipeId = 50, title = ''Mysore Pak'',
      readyInMinutes = 20, servings = 8,
      summary = ''Traditional Karnataka sweet made from gram flour, ghee, and sugar.'',
      healthScore = 43, spoonacularScore = 89, pricePerServing = 1.70,
      category = ''Desserts & Sweets'', cuisine = ''Indian'', vegetarian = True\<rparr>]"

text \<open>
  \<^verbatim>\<open>getLocalRecipes(query, options)\<close>. An empty query is falsy, as an
  omitted one is. The options are read as properties of a plain object.
\<close>

definition getLocalRecipes :: "string \<Rightarrow> jsobj \<Rightarrow> recipe list" where
  "getLocalRecipes query options =
     (let filteredRecipes0 = recipeDatabase;
          filteredRecipes1 =
            (if query \<noteq> [] \<and> query \<noteq> ''random'' \<and> query \<noteq> ''similar'' then
               filter (\<lambda>r. includes_str (toLowerCase (title r)) (toLowerCase query)
                          \<or> includes_str (toLowerCase (summary r)) (toLowerCase query))
                 filteredRecipes0
             else filteredRecipes0);
          filteredRecipes2 =
            (if truthy (getProperty options ''category'')
                \<and> getProperty options ''category'' \<noteq> JStr ''all'' then
               filter (\<lambda>r. JStr (category r) = getProperty options ''category'') filteredRecipes1
             else filteredRecipes1);
          filteredRecipes3 =
            (if getProperty options ''vegetarian'' \<noteq> JNull
                \<and> getProperty options ''vegetarian'' \<noteq> JUndefined then
               filter (\<lambda>r. JBool (vegetarian r) = getProperty options ''vegetarian'') filteredRecipes2
             else filteredRecipes2)
      in filteredRecipes3)"

subsection \<open>Ingredient lists\<close>













section \<open>RecipeService: the operations of the service\<close>

text \<open>
  \<^verbatim>\<open>API_KEY\<close> is the build-time variable
  \<^verbatim>\<open>VITE_SPOONACULAR_API_KEY\<close>, or the placeholder when the variable is
  unset or empty.
\<close>

definition placeholderKey :: string where
  "placeholderKey = ''YOUR_SPOONACULAR_API_KEY''"

definition API_KEY :: "string option \<Rightarrow> string" where
  "API_KEY env =
     (case env of
        Some k \<Rightarrow> if k \<noteq> [] then k else placeholderKey
      | None \<Rightarrow> placeholderKey)"

definition isApiConfigured :: "string option \<Rightarrow> bool" where
  "isApiConfigured env =
     (API_KEY env \<noteq> [] \<and> API_KEY env \<noteq> placeholderKey \<and> length (API_KEY env) > 10)"

text \<open>
  A request is the path given to \<^verbatim>\<open>api.get\<close> with its parameters. The
  promise of \<^verbatim>\<open>api.get\<close> resolves with \<^verbatim>\<open>response.data\<close> (\<open>None\<close> when
  it is \<^verbatim>\<open>null\<close> or \<^verbatim>\<open>undefined\<close>), or rejects with an error whose
  \<^verbatim>\<open>error.response?.status\<close> is the HTTP status, if there is one. The
  network is a function from requests to such outcomes. The state of the
  application the service touches is the search cache, the storage slot of
  the ledger and, to make network calls observable, the log of the requests
  that were sent.
\<close>

type_synonym request = "string \<times> jsobj"

datatype 'a response = Resolved "'a option" | Rejected "int option"

datatype serviceError = NotConfigured | TypeError | RequestError "int option"

record appState =
  searchCache :: "recipe list cache"
  usageStore :: storage
  requestLog :: "request list"

definition CACHE_TTL_SEARCH_RESULTS :: int where
  "CACHE_TTL_SEARCH_RESULTS = 15 * 60 * 1000"

text \<open>The object literal \<^verbatim>\<open>{ query, ...options }\<close>.\<close>

definition searchKeyParams :: "string \<Rightarrow> jsobj \<Rightarrow> jsobj" where
  "searchKeyParams query options =
     foldl (\<lambda>obj (k, v). defineProperty obj k v) [(''query'', JStr query)] options"

text \<open>A destructuring default applies when the property is \<^verbatim>\<open>undefined\<close>.\<close>

definition withDefault :: "jsval \<Rightarrow> jsval \<Rightarrow> jsval" where
  "withDefault v d = (if v = JUndefined then d else v)"

definition complexSearchRequest :: "string \<Rightarrow> jsobj \<Rightarrow> request" where
  "complexSearchRequest query options =
     (''/complexSearch'',
      [(''query'', if query \<noteq> [] then JStr query else JUndefined),
       (''number'', withDefault (getProperty options ''number'') (JNum 12)),
       (''offset'', withDefault (getProperty options ''offset'') (JNum 0)),
       (''type'', withDefault (getProperty options ''type'') (JStr [])),
       (''diet'', withDefault (getProperty options ''diet'') (JStr [])),
       (''cuisine'', withDefault (getProperty options ''cuisine'') (JStr [])),
       (''intolerances'', withDefault (getProperty options ''intolerances'') (JStr [])),
       (''equipment'', withDefault (getProperty options ''equipment'') (JStr [])),
       (''includeIngredients'',
          withDefault (getProperty options ''includeIngredients'') (JStr [])),
       (''excludeIngredients'',
          withDefault (getProperty options ''excludeIngredients'') (JStr [])),
       (''fillIngredients'', withDefault (getProperty options ''fillIngredients'') (JBool True)),
       (''addRecipeInformation'',
          withDefault (getProperty options ''addRecipeInformation'') (JBool True)),
       (''addRecipeNutrition'',
          withDefault (getProperty options ''addRecipeNutrition'') (JBool False)),
       (''instructionsRequired'',
          withDefault (getProperty options ''instructionsRequired'') (JBool True)),
       (''sort'', withDefault (getProperty options ''sort'') (JStr ''popularity'')),
       (''sortDirection'', withDefault (getProperty options ''sortDirection'') (JStr ''desc''))])"

text \<open>
  \<^verbatim>\<open>searchRecipes(query, options)\<close>. The function runs up to the
  \<^verbatim>\<open>await\<close> with the clock \<open>clk0\<close> and goes on after it with the clock
  \<open>clk1\<close>. The payload of a resolved response is its \<^verbatim>\<open>results\<close> property,
  \<open>None\<close> when that is absent. The cached value is an array, which is
  truthy, so \<^verbatim>\<open>if (cached)\<close> holds exactly on a hit. An exception thrown
  in the \<^verbatim>\<open>try\<close> block after the response arrived (reading
  \<^verbatim>\<open>response.data.results\<close> when there is no data) is caught as a
  rejection is; it carries no response.
\<close>

definition searchRecipes ::
  "string option \<Rightarrow> (request \<Rightarrow> recipe list option response) \<Rightarrow> clock \<Rightarrow> clock \<Rightarrow>
     string \<Rightarrow> jsobj \<Rightarrow> appState \<Rightarrow> (serviceError + recipe list) \<times> appState" where
  "searchRecipes env network clk0 clk1 query options s =
     (let cacheKey = generateKey ''complexSearch'' (searchKeyParams query options);
          (cached, cache1) = get (searchCache s) cacheKey (dateNow clk0);
          s1 = s\<lparr>searchCache := cache1\<rparr>
      in case cached of
           Some results \<Rightarrow>
             (Inr results, s1\<lparr>usageStore := snd (recordCacheHit (usageStore s1) clk0)\<rparr>)
         | None \<Rightarrow>
             if \<not> isApiConfigured env then (Inr (getLocalRecipes query options), s1)
             else if \<not> canMakeCall (usageStore s1) clk0 then
               (Inr (getLocalRecipes query options), s1)
             else
               (let req = complexSearchRequest query options;
                    s2 = s1\<lparr>requestLog := requestLog s1 @ [req]\<rparr>
                in case network req of
                     Resolved (Some payload) \<Rightarrow>
                       (let results = (case payload of Some rs \<Rightarrow> rs | None \<Rightarrow> []);
                            s3 = s2\<lparr>usageStore :=
                                      snd (recordCall (usageStore s2) clk1 ''/complexSearch'' True)\<rparr>;
                            s4 = s3\<lparr>searchCache :=
                                      set_c (searchCache s3) cacheKey results
                                        CACHE_TTL_SEARCH_RESULTS (dateNow clk1)\<rparr>
                        in (Inr results, s4))
                   | Resolved None \<Rightarrow>
                       (let s3 = s2\<lparr>usageStore :=
                                      snd (recordCall (usageStore s2) clk1 ''/complexSearch'' False)\<rparr>
                        in (Inl TypeError, s3))
                   | Rejected status \<Rightarrow>
                       (let s3 = s2\<lparr>usageStore :=
                                      snd (recordCall (usageStore s2) clk1 ''/complexSearch'' False)\<rparr>
                        in if status = Some 402 \<or> status = Some 429
                           then (Inr (getLocalRecipes query options), s3)
                           else (Inl (RequestError status), s3))))"

text \<open>
  \<^verbatim>\<open>getRecipeDetails(recipeId)\<close>. Reading \<^verbatim>\<open>response.data.title\<close> for the
  log throws when there is no data; the \<^verbatim>\<open>catch\<close> block throws the error
  on.
\<close>

definition getRecipeDetails ::
  "string option \<Rightarrow> (request \<Rightarrow> 'd response) \<Rightarrow> int \<Rightarrow> appState \<Rightarrow>
     (serviceError + 'd) \<times> appState" where
  "getRecipeDetails env network rid s =
     (if \<not> isApiConfigured env then (Inl NotConfigured, s)
      else
        (let req = (''/'' @ showInt rid @ ''/information'', [(''includeNutrition'', JBool True)]);
             s1 = s\<lparr>requestLog := requestLog s @ [req]\<rparr>
         in case network req of
              Resolved (Some details) \<Rightarrow> (Inr details, s1)
            | Resolved None \<Rightarrow> (Inl TypeError, s1)
            | Rejected status \<Rightarrow> (Inl (RequestError status), s1)))"

text \<open>\<^verbatim>\<open>getRandomRecipes(number)\<close>; the payload is the \<^verbatim>\<open>recipes\<close> property.\<close>

definition getRandomRecipes ::
  "string option \<Rightarrow> (request \<Rightarrow> 'r list option response) \<Rightarrow> int \<Rightarrow> appState \<Rightarrow>
     (serviceError + 'r list) \<times> appState" where
  "getRandomRecipes env network number s =
     (if \<not> isApiConfigured env then (Inl NotConfigured, s)
      else
        (let req = (''/random'',
                    [(''number'', JNum number),
                     (''tags'', JStr ''main course,side dish,dessert,appetizer,breakfast'')]);
             s1 = s\<lparr>requestLog := requestLog s @ [req]\<rparr>
         in case network req of
              Resolved (Some payload) \<Rightarrow>
                (Inr (case payload of Some rs \<Rightarrow> rs | None \<Rightarrow> []), s1)
            | Resolved None \<Rightarrow> (Inl TypeError, s1)
            | Rejected status \<Rightarrow> (Inl (RequestError status), s1)))"

text \<open>
  \<^verbatim>\<open>findRecipesByIngredients(ingredients, options)\<close>; the response is read
  with optional chaining, so missing data gives the empty list.
\<close>

definition findRecipesByIngredients ::
  "string option \<Rightarrow> (request \<Rightarrow> 'r list response) \<Rightarrow> string list \<Rightarrow> jsobj \<Rightarrow> appState \<Rightarrow>
     (serviceError + 'r list) \<times> appState" where
  "findRecipesByIngredients env network ingredientList options s =
     (if \<not> isApiConfigured env then (Inl NotConfigured, s)
      else
        (let params0 =
               [(''ingredients'', JStr (joinWith '','' ingredientList)),
                (''number'', withDefault (getProperty options ''number'') (JNum 12)),
                (''limitLicense'', withDefault (getProperty options ''limitLicense'') (JBool True)),
                (''ranking'', withDefault (getProperty options ''ranking'') (JNum 1)),
                (''ignorePantry'', withDefault (getProperty options ''ignorePantry'') (JBool True))];
             params1 =
               (if truthy (getProperty options ''maxReadyTime'')
                then assignProperty params0 ''maxReadyTime'' (getProperty options ''maxReadyTime'')
                else params0);
             params2 =
               (if truthy (getProperty options ''minReadyTime'')
                then assignProperty params1 ''minReadyTime'' (getProperty options ''minReadyTime'')
                else params1);
             req = (''/findByIngredients'', params2);
             s1 = s\<lparr>requestLog := requestLog s @ [req]\<rparr>
         in case network req of
              Resolved (Some rs) \<Rightarrow> (Inr rs, s1)
            | Resolved None \<Rightarrow> (Inr [], s1)
            | Rejected status \<Rightarrow> (Inl (RequestError status), s1)))"

section \<open>Notions used in the statements\<close>

text \<open>The entries of a cache that have not expired at a given time.\<close>

definition liveEntries :: "'v cache \<Rightarrow> int \<Rightarrow> 'v cache" where
  "liveEntries c now = filter (\<lambda>p. \<not> now > expiresAt (snd p)) c"

text \<open>The entries that the second pass of \<^verbatim>\<open>cleanup\<close> removes from the live ones.\<close>

definition lruVictims :: "'v cache \<Rightarrow> 'v cache" where
  "lruVictims c1 = take lruTrimCount (sort_key (\<lambda>(key, item). lastAccessed item) c1)"

text \<open>What \<^verbatim>\<open>Map\<close> guarantees, and the capacity bound.\<close>

definition cacheInv :: "'v cache \<Rightarrow> bool" where
  "cacheInv c = (distinct (map fst c) \<and> length c \<le> maxCacheSize)"

text \<open>
  A full cache for the examples: a hundred entries, entry \<open>i\<close> written at
  time \<open>i\<close> with a time to live of 1000. Reading the oldest key at time 200
  refreshes it.
\<close>

definition sampleCache :: "nat cache" where
  "sampleCache =
     map (\<lambda>i. (showNat i,
                \<lparr>data = nat i, expiresAt = 1000 + i, lastAccessed = i, createdAt = i\<rparr>))
       [0..99]"

definition refreshedCache :: "nat cache" where
  "refreshedCache = snd (get sampleCache ''0'' 200)"

definition refreshedEntry :: "string \<times> nat cacheItem" where
  "refreshedEntry = (''0'', \<lparr>data = 0, expiresAt = 1000, lastAccessed = 200, createdAt = 0\<rparr>)"


text \<open>The ledger that a new day starts with.\<close>

definition zeroLedger :: "clock \<Rightarrow> usageData" where
  "zeroLedger clk =
     \<lparr>date = dateString clk, calls = 0, endpoints = [], lastReset = dateNow clk,
      errors = 0, cached = 0\<rparr>"

text \<open>
  A ledger written on one day with the limit used up, and the clock read
  later that day and on the next day.
\<close>

definition yesterdayStore :: storage where
  "yesterdayStore =
     \<lparr>stored = Item \<lparr>date = ''Sat Oct 31 2026'', calls = 150,
                       endpoints = [(''/complexSearch'', Count 150)], lastReset = 1793400000000,
                       errors = 2, cached = 7\<rparr>,
      writable = True\<rparr>"

definition todayClock :: clock where
  "todayClock = \<lparr>dateNow = 1793500000000, dateString = ''Sun Nov 01 2026''\<rparr>"

definition yesterdayClock :: clock where
  "yesterdayClock = \<lparr>dateNow = 1793420000000, dateString = ''Sat Oct 31 2026''\<rparr>"

text \<open>The key under which \<^verbatim>\<open>searchRecipes\<close> caches a search.\<close>

definition searchKey :: "string \<Rightarrow> jsobj \<Rightarrow> string" where
  "searchKey query options = generateKey ''complexSearch'' (searchKeyParams query options)"

text \<open>
  Values for the examples: a configured credential, a recipe as the remote
  service returns it, networks that answer every request the same way, and
  application states before any call, at the daily limit, and one call
  below it.
\<close>

definition configuredEnv :: "string option" where
  "configuredEnv = Some ''3f2a9c0d7b6e4f1a8c5d2e9b0a7f6c3d''"

definition apiRecipe :: recipe where
  "apiRecipe =
     \<lparr>recipeId = 716429, title = ''Pasta with Garlic, Scallions, Cauliflower and Breadcrumbs'',
      readyInMinutes = 45, servings = 2,
      summary = ''A pasta dish with garlic and scallions.'',
      healthScore = 19, spoonacularScore = 83, pricePerServing = 163.15,
      category = ''Main Course'', cuisine = ''Italian'', vegetarian = False\<rparr>"

definition apiNetwork :: "request \<Rightarrow> recipe list option response" where
  "apiNetwork req = Resolved (Some (Some [apiRecipe]))"

definition detailsNetwork :: "request \<Rightarrow> recipe response" where
  "detailsNetwork req = Resolved (Some apiRecipe)"

definition failingNetwork :: "request \<Rightarrow> recipe response" where
  "failingNetwork req = Rejected (Some 500)"

definition freshState :: appState where
  "freshState =
     \<lparr>searchCache = [], usageStore = \<lparr>stored = NoItem, writable = True\<rparr>, requestLog = []\<rparr>"

definition limitState :: appState where
  "limitState = \<lparr>searchCache = [], usageStore = yesterdayStore, requestLog = []\<rparr>"

definition nearLimitState :: appState where
  "nearLimitState =
     \<lparr>searchCache = [],
      usageStore =
        \<lparr>stored = Item \<lparr>date = ''Sun Nov 01 2026'', calls = 149,
                         endpoints = [(''/complexSearch'', Count 149)], lastReset = 1793490000000,
                         errors = 0, cached = 0\<rparr>,
         writable = True\<rparr>,
      requestLog = []\<rparr>"

text \<open>The state after one more search went to the network from one call below the limit.\<close>

definition exhaustedState :: appState where
  "exhaustedState =
     snd (searchRecipes configuredEnv apiNetwork todayClock todayClock ''random'' [] nearLimitState)"

text \<open>The search of the example, and the state after it went to the network once.\<close>

definition pastaOptions :: jsobj where
  "pastaOptions = [(''number'', JNum 5)]"

definition afterFirstSearch :: appState where
  "afterFirstSearch =
     snd (searchRecipes configuredEnv apiNetwork todayClock todayClock ''pasta'' pastaOptions
            freshState)"







section \<open>Rounding to a double: the error bound\<close>

lemma powi_nonneg_eq: "0 \<le> k \<Longrightarrow> (2::rat) powi k = 2 ^ nat k"
  by (simp add: power_int_def)

lemma quotient_pos:
  assumes "0 < x" "quotient_of x = (a, b)"
  shows "0 < a" "0 < b" "x = of_int a / of_int b"
proof -
  show b: "0 < b" using assms(2) by (rule quotient_of_denom_pos)
  show x: "x = of_int a / of_int b" using assms(2) by (rule quotient_of_div)
  show "0 < a"
  proof (rule ccontr)
    assume "\<not> 0 < a"
    then have "(of_int a :: rat) \<le> 0" by simp
    then have "x \<le> 0" using b x by (simp add: divide_nonpos_pos)
    then show False using assms(1) by simp
  qed
qed

lemma ilog2_le:
  assumes "0 < x"
  shows "2 powi (ilog2 x) \<le> x"
proof -
  obtain a b where q: "quotient_of x = (a, b)" by (cases "quotient_of x")
  note p = quotient_pos[OF assms q]
  let ?k = "bitlen a - bitlen b"
  show ?thesis
  proof (cases "2 powi ?k \<le> x")
    case True
    then show ?thesis by (simp add: ilog2_def q)
  next
    case False
    have la: "1 \<le> bitlen a" using p(1) by (simp add: bitlen_alt_def)
    have lb: "1 \<le> bitlen b" using p(2) by (simp add: bitlen_alt_def)
    have "(2::int) ^ nat (bitlen a - 1) \<le> a" using bitlen_bounds[OF p(1)] by simp
    then have "(of_int ((2::int) ^ nat (bitlen a - 1)) :: rat) \<le> of_int a"
      by (simp only: of_int_le_iff)
    then have A: "(2::rat) ^ nat (bitlen a - 1) \<le> of_int a" by simp
    have "b < 2 ^ nat (bitlen b)" using bitlen_bounds[OF p(2)] by simp
    then have "(of_int b :: rat) < of_int (2 ^ nat (bitlen b))"
      by (simp only: of_int_less_iff)
    then have B: "(of_int b :: rat) < 2 ^ nat (bitlen b)" by simp
    have bpos: "(0::rat) < of_int b" using p(2) by simp
    have "?k - 1 = (bitlen a - 1) - bitlen b" by simp
    then have "(2::rat) powi (?k - 1) = 2 powi (bitlen a - 1) / 2 powi (bitlen b)"
      by (metis power_int_diff zero_neq_numeral)
    also have "\<dots> = 2 ^ nat (bitlen a - 1) / 2 ^ nat (bitlen b)"
      using la lb by (simp add: powi_nonneg_eq)
    also have "\<dots> \<le> of_int a / 2 ^ nat (bitlen b)"
      using A by (simp add: divide_right_mono)
    also have "\<dots> \<le> of_int a / of_int b"
      using B bpos p(1) by (intro divide_left_mono) (auto simp: less_imp_le)
    finally have "(2::rat) powi (?k - 1) \<le> x" using p(3) by simp
    then show ?thesis using False by (simp add: ilog2_def q)
  qed
qed

lemma ilog2_less:
  assumes "0 < x"
  shows "x < 2 powi (ilog2 x + 1)"
proof -
  obtain a b where q: "quotient_of x = (a, b)" by (cases "quotient_of x")
  note p = quotient_pos[OF assms q]
  let ?k = "bitlen a - bitlen b"
  show ?thesis
  proof (cases "2 powi ?k \<le> x")
    case False
    then show ?thesis by (simp add: ilog2_def q)
  next
    case True
    have la: "1 \<le> bitlen a" using p(1) by (simp add: bitlen_alt_def)
    have lb: "1 \<le> bitlen b" using p(2) by (simp add: bitlen_alt_def)
    have "a < 2 ^ nat (bitlen a)" using bitlen_bounds[OF p(1)] by simp
    then have "(of_int a :: rat) < of_int (2 ^ nat (bitlen a))"
      by (simp only: of_int_less_iff)
    then have A: "(of_int a :: rat) < 2 ^ nat (bitlen a)" by simp
    have "(2::int) ^ nat (bitlen b - 1) \<le> b" using bitlen_bounds[OF p(2)] by simp
    then have "(of_int ((2::int) ^ nat (bitlen b - 1)) :: rat) \<le> of_int b"
      by (simp only: of_int_le_iff)
    then have B: "(2::rat) ^ nat (bitlen b - 1) \<le> of_int b" by simp
    have bpos: "(0::rat) < of_int b" using p(2) by simp
    have "x = of_int a / of_int b" by (rule p(3))
    also have "\<dots> < 2 ^ nat (bitlen a) / of_int b"
      using A bpos by (simp add: divide_strict_right_mono)
    also have "\<dots> \<le> 2 ^ nat (bitlen a) / 2 ^ nat (bitlen b - 1)"
      using B bpos by (intro divide_left_mono) (auto intro: mult_pos_pos)
    also have "\<dots> = 2 powi (bitlen a) / 2 powi (bitlen b - 1)"
      using la lb by (simp add: powi_nonneg_eq)
    also have "\<dots> = (2::rat) powi (bitlen a - (bitlen b - 1))"
      by (metis power_int_diff zero_neq_numeral)
    also have "\<dots> = (2::rat) powi (?k + 1)"
      by (simp add: algebra_simps)
    finally show ?thesis using True by (simp add: ilog2_def q)
  qed
qed

lemma roundHalfEven_err: "\<bar>of_int (roundHalfEven y) - y\<bar> \<le> 1 / 2"
proof -
  have "of_int \<lfloor>y\<rfloor> \<le> y" "y < of_int \<lfloor>y\<rfloor> + 1" by linarith+
  then show ?thesis
    by (auto simp: roundHalfEven_def Let_def)
qed

lemma double_err: "\<bar>double x - x\<bar> \<le> \<bar>x\<bar> / 2 ^ 53"
proof (cases "x = 0")
  case True
  then show ?thesis by (simp add: double_def)
next
  case False
  define e where "e = ilog2 \<bar>x\<bar>"
  define u :: rat where "u = 2 powi (e - 52)"
  define m where "m = roundHalfEven (\<bar>x\<bar> / u)"
  have upos: "0 < u" by (simp add: u_def)
  have d: "double x = sgn x * of_int m * u"
    using False by (simp add: double_def Let_def e_def u_def m_def)
  have "double x - x = sgn x * of_int m * u - sgn x * \<bar>x\<bar>"
    by (simp add: d sgn_mult_abs)
  then have "double x - x = sgn x * (of_int m * u - \<bar>x\<bar>)"
    by (simp add: algebra_simps)
  then have "\<bar>double x - x\<bar> = \<bar>sgn x * (of_int m * u - \<bar>x\<bar>)\<bar>"
    by simp
  also have "\<dots> = \<bar>of_int m * u - \<bar>x\<bar>\<bar>"
    using False by (simp add: abs_mult abs_sgn_eq)
  also have "\<dots> = \<bar>of_int m - \<bar>x\<bar> / u\<bar> * u"
  proof -
    have "of_int m * u - \<bar>x\<bar> = (of_int m - \<bar>x\<bar> / u) * u"
      using upos by (simp add: field_simps)
    then show ?thesis using upos by (simp add: abs_mult)
  qed
  also have "\<dots> \<le> (1 / 2) * u"
    using roundHalfEven_err[of "\<bar>x\<bar> / u"] upos
    unfolding m_def by (intro mult_right_mono) auto
  also have "\<dots> = 2 powi e / 2 ^ 53"
    by (simp add: u_def power_int_diff)
  also have "\<dots> \<le> \<bar>x\<bar> / 2 ^ 53"
    using ilog2_le[of "\<bar>x\<bar>"] False by (simp add: e_def divide_right_mono)
  finally show ?thesis .
qed

lemma critical_level: "fmul criticalThreshold 100 = 95"
  unfolding criticalThreshold_def by code_simp

lemma warning_level: "fmul warningThreshold 100 = 80"
  unfolding warningThreshold_def by code_simp

section \<open>The cache: sweeping, trimming and the capacity bound\<close>

lemma lruTrimCount_eq: "lruTrimCount = 30"
  unfolding lruTrimCount_def maxCacheSize_def by code_simp

lemma delete_as_filter: "AList.delete k m = filter (\<lambda>p. fst p \<noteq> k) m"
  by (induction m) auto

lemma sweep_expired_filter:
  "foldl (\<lambda>m (key, item). if now > expiresAt item then AList.delete key m else m) m es
     = filter (\<lambda>p. fst p \<notin> fst ` {e \<in> set es. now > expiresAt (snd e)}) m"
proof (induction es arbitrary: m)
  case Nil
  then show ?case by simp
next
  case (Cons e es)
  obtain k i where e: "e = (k, i)" by (cases e)
  show ?case
  proof (cases "now > expiresAt i")
    case True
    have "{x \<in> set (e # es). now > expiresAt (snd x)} = insert e {x \<in> set es. now > expiresAt (snd x)}"
      using True e by auto
    then show ?thesis
      using True e Cons.IH[of "AList.delete k m"]
      by (simp add: delete_as_filter conj_commute)
  next
    case False
    have "{x \<in> set (e # es). now > expiresAt (snd x)} = {x \<in> set es. now > expiresAt (snd x)}"
      using False e by auto
    then show ?thesis
      using False e Cons.IH[of m] by simp
  qed
qed

lemma delete_keys_filter:
  "foldl (\<lambda>m (key, item). AList.delete key m) m es = filter (\<lambda>p. fst p \<notin> fst ` set es) m"
proof (induction es arbitrary: m)
  case Nil
  then show ?case by simp
next
  case (Cons e es)
  obtain k i where e: "e = (k, i)" by (cases e)
  show ?case
    using Cons.IH[of "AList.delete k m"] e
    by (simp add: delete_as_filter conj_commute)
qed

lemma key_determines_entry:
  "distinct (map fst c) \<Longrightarrow> p \<in> set c \<Longrightarrow> q \<in> set c \<Longrightarrow> fst p = fst q \<Longrightarrow> p = q"
  by (metis eq_key_imp_eq_value prod.collapse)

lemma sweep_expired_live:
  assumes "distinct (map fst c)"
  shows "foldl (\<lambda>m (key, item). if now > expiresAt item then AList.delete key m else m) c c
           = liveEntries c now"
  unfolding sweep_expired_filter liveEntries_def
proof (rule filter_cong[OF refl])
  fix p assume p: "p \<in> set c"
  show "(fst p \<notin> fst ` {e \<in> set c. now > expiresAt (snd e)}) = (\<not> now > expiresAt (snd p))"
  proof
    assume "fst p \<notin> fst ` {e \<in> set c. now > expiresAt (snd e)}"
    then show "\<not> now > expiresAt (snd p)" using p by force
  next
    assume live: "\<not> now > expiresAt (snd p)"
    show "fst p \<notin> fst ` {e \<in> set c. now > expiresAt (snd e)}"
    proof
      assume "fst p \<in> fst ` {e \<in> set c. now > expiresAt (snd e)}"
      then obtain e where e: "e \<in> set c" "now > expiresAt (snd e)" "fst p = fst e" by auto
      then have "p = e" using key_determines_entry[OF assms p] by blast
      then show False using live e by simp
    qed
  qed
qed

lemma distinct_liveEntries: "distinct (map fst c) \<Longrightarrow> distinct (map fst (liveEntries c now))"
  by (simp add: liveEntries_def distinct_map_filter)

lemma cleanup_closed:
  assumes "distinct (map fst c)"
  shows "cleanup c now =
           (if length (liveEntries c now) \<ge> maxCacheSize
            then filter (\<lambda>p. p \<notin> set (lruVictims (liveEntries c now))) (liveEntries c now)
            else liveEntries c now)"
proof -
  let ?l = "liveEntries c now"
  have d: "distinct (map fst ?l)" by (rule distinct_liveEntries[OF assms])
  have sub: "set (lruVictims ?l) \<subseteq> set ?l"
    unfolding lruVictims_def by (metis set_take_subset set_sort)
  have "filter (\<lambda>p. fst p \<notin> fst ` set (lruVictims ?l)) ?l = filter (\<lambda>p. p \<notin> set (lruVictims ?l)) ?l"
  proof (rule filter_cong[OF refl])
    fix p assume p: "p \<in> set ?l"
    show "(fst p \<notin> fst ` set (lruVictims ?l)) = (p \<notin> set (lruVictims ?l))"
      using key_determines_entry[OF d p] sub by (auto simp: image_iff)
  qed
  then show ?thesis
    by (simp add: cleanup_def Let_def sweep_expired_live[OF assms] delete_keys_filter lruVictims_def)
qed

lemma distinct_entries: "distinct (map fst c) \<Longrightarrow> distinct c"
  by (simp add: distinct_map)

lemma lruVictims_props:
  assumes "distinct (map fst l)"
  shows "set (lruVictims l) \<subseteq> set l"
    and "distinct (lruVictims l)"
    and "length (lruVictims l) = min lruTrimCount (length l)"
proof -
  show "set (lruVictims l) \<subseteq> set l"
    unfolding lruVictims_def by (metis set_take_subset set_sort)
  have "distinct (sort_key (\<lambda>(key, item). lastAccessed item) l)"
    using distinct_entries[OF assms] by simp
  then show "distinct (lruVictims l)"
    unfolding lruVictims_def by (rule distinct_take)
  show "length (lruVictims l) = min lruTrimCount (length l)"
    unfolding lruVictims_def by simp
qed

lemma length_remove_victims:
  assumes "distinct l" "distinct t" "set t \<subseteq> set l"
  shows "length (filter (\<lambda>p. p \<notin> set t) l) = length l - length t"
proof -
  have "set (filter (\<lambda>p. p \<notin> set t) l) = set l - set t" by auto
  moreover have "distinct (filter (\<lambda>p. p \<notin> set t) l)" using assms(1) by simp
  ultimately have "length (filter (\<lambda>p. p \<notin> set t) l) = card (set l - set t)"
    by (metis distinct_card)
  also have "\<dots> = card (set l) - card (set t)"
    using assms(3) by (simp add: card_Diff_subset)
  finally show ?thesis
    using assms(1,2) by (simp add: distinct_card)
qed

lemma victims_oldest:
  assumes "x \<in> set (lruVictims l)" "y \<in> set l" "y \<notin> set (lruVictims l)"
  shows "lastAccessed (snd x) \<le> lastAccessed (snd y)"
proof -
  let ?f = "\<lambda>(key, item). lastAccessed item"
  let ?s = "sort_key ?f l"
  have "y \<in> set ?s" using assms(2) by simp
  then have "y \<in> set (take lruTrimCount ?s) \<union> set (drop lruTrimCount ?s)"
    by (metis append_take_drop_id set_append)
  then have y: "y \<in> set (drop lruTrimCount ?s)"
    using assms(3) by (simp add: lruVictims_def)
  have "sorted (map ?f (take lruTrimCount ?s @ drop lruTrimCount ?s))"
    by simp
  then have "\<forall>a \<in> set (take lruTrimCount ?s). \<forall>b \<in> set (drop lruTrimCount ?s). ?f a \<le> ?f b"
    unfolding map_append sorted_append by auto
  then have "?f x \<le> ?f y"
    using assms(1) y by (simp add: lruVictims_def)
  then show ?thesis by (simp add: case_prod_unfold)
qed

lemma fresher_survives:
  assumes "x \<in> set l"
    and "lruTrimCount \<le> length (filter (\<lambda>q. lastAccessed (snd q) < lastAccessed (snd x)) l)"
  shows "x \<notin> set (lruVictims l)"
proof
  assume xv: "x \<in> set (lruVictims l)"
  let ?f = "\<lambda>(key, item). lastAccessed item"
  let ?s = "sort_key ?f l"
  let ?P = "\<lambda>q. lastAccessed (snd q) < lastAccessed (snd x)"
  have "mset (filter ?P ?s) = mset (filter ?P l)" by simp
  then have len: "length (filter ?P ?s) = length (filter ?P l)"
    by (metis size_mset)
  have rest: "filter ?P (drop lruTrimCount ?s) = []"
  proof -
    have "\<And>y. y \<in> set (drop lruTrimCount ?s) \<Longrightarrow> \<not> ?P y"
    proof -
      fix y assume y: "y \<in> set (drop lruTrimCount ?s)"
      have "sorted (map ?f (take lruTrimCount ?s @ drop lruTrimCount ?s))" by simp
      then have "\<forall>a \<in> set (take lruTrimCount ?s). \<forall>b \<in> set (drop lruTrimCount ?s). ?f a \<le> ?f b"
        unfolding map_append sorted_append by auto
      then have "?f x \<le> ?f y" using xv y by (simp add: lruVictims_def)
      then show "\<not> ?P y" by (simp add: case_prod_unfold)
    qed
    then show ?thesis by (simp add: filter_empty_conv)
  qed
  have "filter ?P ?s = filter ?P (take lruTrimCount ?s) @ filter ?P (drop lruTrimCount ?s)"
    by (metis append_take_drop_id filter_append)
  then have eq: "filter ?P ?s = filter ?P (lruVictims l)"
    using rest by (simp add: lruVictims_def)
  have "\<not> ?P x" by simp
  then have "length (filter ?P (lruVictims l)) < length (lruVictims l)"
    using xv by (metis length_filter_less)
  also have "\<dots> \<le> lruTrimCount" by (simp add: lruVictims_def)
  finally show False using assms(2) len eq by simp
qed

lemma length_cleanup:
  assumes "distinct (map fst c)"
  shows "length (cleanup c now) =
           (if length (liveEntries c now) \<ge> maxCacheSize
            then length (liveEntries c now) - lruTrimCount else length (liveEntries c now))"
proof -
  let ?l = "liveEntries c now"
  have d: "distinct (map fst ?l)" by (rule distinct_liveEntries[OF assms])
  show ?thesis
    using length_remove_victims[OF distinct_entries[OF d] lruVictims_props(2)[OF d] lruVictims_props(1)[OF d]]
      lruVictims_props(3)[OF d]
    by (simp add: cleanup_closed[OF assms] lruTrimCount_eq maxCacheSize_def)
qed

lemma distinct_cleanup:
  assumes "distinct (map fst c)"
  shows "distinct (map fst (cleanup c now))"
  using distinct_liveEntries[OF assms, of now]
  by (simp add: cleanup_closed[OF assms] distinct_map_filter)

lemma length_liveEntries: "length (liveEntries c now) \<le> length c"
  by (simp add: liveEntries_def)

lemma length_update_le: "length (AList.update k v al) \<le> Suc (length al)"
  by (induction al) auto

lemma set_c_inv:
  assumes "cacheInv c"
  shows "cacheInv (set_c c key d ttl now)"
proof -
  have dc: "distinct (map fst c)" and lc: "length c \<le> maxCacheSize"
    using assms by (simp_all add: cacheInv_def)
  define c1 where "c1 = (if length c \<ge> maxCacheSize then cleanup c now else c)"
  define item where
    "item = \<lparr>data = d, expiresAt = now + ttl, lastAccessed = now, createdAt = now\<rparr>"
  have d1: "distinct (map fst c1)"
    using dc distinct_cleanup[OF dc] by (simp add: c1_def)
  have "length c1 < maxCacheSize"
    using lc length_cleanup[OF dc, of now] length_liveEntries[of c now]
    by (auto simp: c1_def lruTrimCount_eq maxCacheSize_def)
  then have "length (AList.update key item c1) \<le> maxCacheSize"
    using length_update_le[of key item c1] by linarith
  moreover have "distinct (map fst (AList.update key item c1))"
    using d1 by (rule distinct_update)
  moreover have "set_c c key d ttl now = AList.update key item c1"
    by (simp add: set_c_def c1_def item_def)
  ultimately show ?thesis
    by (simp add: cacheInv_def)
qed

lemma cacheInv_empty: "cacheInv []"
  by (simp add: cacheInv_def)

lemma set_sequence_inv:
  "cacheInv c \<Longrightarrow> cacheInv (foldl (\<lambda>c (key, d, ttl, now). set_c c key d ttl now) c ops)"
proof (induction ops arbitrary: c)
  case Nil
  then show ?case by simp
next
  case (Cons op ops)
  obtain key d ttl now where op: "op = (key, d, ttl, now)" by (cases op)
  show ?case
    using Cons.IH[OF set_c_inv[OF Cons.prems, of key d ttl now]] op by simp
qed

text \<open>
  Claim C5. A cache is created empty. After any sequence of calls
  \<^verbatim>\<open>set(key, value, ttl)\<close>, made at any times, it holds at most
  \<open>maxCacheSize\<close> = 100 entries. Every prefix of a sequence is a sequence, so
  the bound holds after each call.
\<close>

theorem capacity_invariant:
  "length (foldl (\<lambda>c (key, d, ttl, now). set_c c key d ttl now) [] ops) \<le> maxCacheSize"
  using set_sequence_inv[OF cacheInv_empty, of ops] by (simp add: cacheInv_def)

section \<open>Cache keys\<close>

lemma sort_keys_cong:
  assumes "distinct (map fst p)" "distinct (map fst q)" "map_of p = map_of q"
  shows "sort (map fst p) = sort (map fst q)"
proof -
  have "set (map fst p) = set (map fst q)"
    using assms(3) by (metis dom_map_of_conv_image_fst set_map)
  then show ?thesis
    using assms(1,2) by (intro sorted_distinct_set_unique) auto
qed

text \<open>
  Claim C7. Two parameter objects with the same properties (the same keys,
  each with the same value), whatever the order in which the properties were
  created, get the same cache key for every operation name. An object has
  no key twice, hence the distinctness of the keys. The instance
  \<^verbatim>\<open>{b:1, a:2}\<close> against \<^verbatim>\<open>{a:2, b:1}\<close> under \<^verbatim>\<open>search\<close> follows it.
\<close>

theorem generateKey_order_independent:
  assumes "distinct (map fst p)" and "distinct (map fst q)" and "map_of p = map_of q"
  shows "generateKey endpoint p = generateKey endpoint q"
  using sort_keys_cong[OF assms] assms(3)
  by (simp add: generateKey_def getProperty_def)

theorem generateKey_order_independent_witness:
  "generateKey ''search'' [(''b'', JNum 1), (''a'', JNum 2)]
     = generateKey ''search'' [(''a'', JNum 2), (''b'', JNum 1)]
   \<and> generateKey ''search'' [(''a'', JNum 2), (''b'', JNum 1)]
     = ''search:{'' @ [CHR 0x22] @ ''a'' @ [CHR 0x22] @ '':2,'' @ [CHR 0x22] @ ''b'' @ [CHR 0x22] @ '':1}''"
proof -
  have d1: "distinct (map fst [(''b'', JNum 1), (''a'', JNum 2)])" by simp
  have d2: "distinct (map fst [(''a'', JNum 2), (''b'', JNum 1)])" by simp
  have m: "map_of [(''b'', JNum 1), (''a'', JNum 2)] = map_of [(''a'', JNum 2), (''b'', JNum 1)]"
    by (rule ext) simp
  have v: "generateKey ''search'' [(''a'', JNum 2), (''b'', JNum 1)]
     = ''search:{'' @ [CHR 0x22] @ ''a'' @ [CHR 0x22] @ '':2,'' @ [CHR 0x22] @ ''b'' @ [CHR 0x22] @ '':1}''"
    by code_simp
  show ?thesis
    using generateKey_order_independent[OF d1 d2 m, of "''search''"] v by blast
qed

section \<open>Eviction order\<close>

lemma get_hit_entry:
  assumes "distinct (map fst c0)" "get c0 k t = (Some v, c)"
  shows "\<exists>e. map_of c k = Some e \<and> lastAccessed e = t \<and> data e = v"
proof (cases "map_of c0 k")
  case None
  then show ?thesis using assms(2) by (simp add: get_def)
next
  case (Some e0)
  then have "c = AList.update k (e0\<lparr>lastAccessed := t\<rparr>) c0" "v = data e0"
    using assms(2) by (auto simp: get_def split: if_splits)
  then show ?thesis by (simp add: update_conv')
qed

text \<open>
  Claim C6. Let \<^verbatim>\<open>set\<close> find the cache at or above capacity. It then
  inserts into the result of \<^verbatim>\<open>cleanup\<close>. That result holds live entries
  only. If fewer than \<open>maxCacheSize\<close> entries are live, exactly the expired
  ones are gone. Otherwise 30 more entries are removed, which is 30 percent
  of the capacity and, the cache never exceeding its capacity, of the live
  entries; every entry removed by this pass was accessed no later than
  every entry that stays; and a live entry with at least 30 live entries
  accessed strictly earlier stays. A hit of \<^verbatim>\<open>get\<close> sets the access time of
  its entry to the time of the read, so an entry read recently stays while
  staler ones go.
\<close>

theorem cleanup_expired_then_lru:
  fixes c :: "'v cache"
  assumes "distinct (map fst c)" and "maxCacheSize \<le> length c"
  shows "set_c c key d ttl now =
           AList.update key
             \<lparr>data = d, expiresAt = now + ttl, lastAccessed = now, createdAt = now\<rparr>
             (cleanup c now)
       \<and> set (cleanup c now) \<subseteq> set (liveEntries c now)
       \<and> (length (liveEntries c now) < maxCacheSize \<longrightarrow> cleanup c now = liveEntries c now)
       \<and> (maxCacheSize \<le> length (liveEntries c now) \<longrightarrow>
            length (cleanup c now) = length (liveEntries c now) - 30
          \<and> 10 * 30 = 3 * maxCacheSize
          \<and> (length c \<le> maxCacheSize \<longrightarrow>
               10 * (length (liveEntries c now) - length (cleanup c now))
                 = 3 * length (liveEntries c now))
          \<and> (\<forall>x \<in> set (liveEntries c now) - set (cleanup c now).
               \<forall>y \<in> set (cleanup c now).
                 lastAccessed (snd x) \<le> lastAccessed (snd y))
          \<and> (\<forall>x \<in> set (liveEntries c now).
               30 \<le> length (filter (\<lambda>q. lastAccessed (snd q) < lastAccessed (snd x))
                              (liveEntries c now))
               \<longrightarrow> x \<in> set (cleanup c now)))
       \<and> (\<forall>c0 k t v. distinct (map fst c0) \<and> get c0 k t = (Some v, c) \<longrightarrow>
            (\<exists>e. map_of c k = Some e \<and> lastAccessed e = t \<and> data e = v))"
proof -
  let ?l = "liveEntries c now"
  have cl: "cleanup c now =
              (if length ?l \<ge> maxCacheSize
               then filter (\<lambda>p. p \<notin> set (lruVictims ?l)) ?l else ?l)"
    by (rule cleanup_closed[OF assms(1)])
  have p1: "set_c c key d ttl now =
           AList.update key
             \<lparr>data = d, expiresAt = now + ttl, lastAccessed = now, createdAt = now\<rparr>
             (cleanup c now)"
    using assms(2) by (simp add: set_c_def)
  have p2: "set (cleanup c now) \<subseteq> set ?l"
    by (auto simp: cl)
  have p3: "length ?l < maxCacheSize \<longrightarrow> cleanup c now = ?l"
    by (simp add: cl)
  have p4: "maxCacheSize \<le> length ?l \<longrightarrow>
            length (cleanup c now) = length ?l - 30
          \<and> 10 * 30 = 3 * maxCacheSize
          \<and> (length c \<le> maxCacheSize \<longrightarrow>
               10 * (length ?l - length (cleanup c now)) = 3 * length ?l)
          \<and> (\<forall>x \<in> set ?l - set (cleanup c now). \<forall>y \<in> set (cleanup c now).
                 lastAccessed (snd x) \<le> lastAccessed (snd y))
          \<and> (\<forall>x \<in> set ?l.
               30 \<le> length (filter (\<lambda>q. lastAccessed (snd q) < lastAccessed (snd x)) ?l)
               \<longrightarrow> x \<in> set (cleanup c now))"
  proof
    assume big: "maxCacheSize \<le> length ?l"
    then have cl': "cleanup c now = filter (\<lambda>p. p \<notin> set (lruVictims ?l)) ?l"
      by (simp add: cl)
    have len: "length (cleanup c now) = length ?l - 30"
      using length_cleanup[OF assms(1), of now] big by (simp add: lruTrimCount_eq)
    have a: "length (cleanup c now) = length ?l - 30"
      by (rule len)
    have b: "10 * 30 = 3 * maxCacheSize" by (simp add: maxCacheSize_def)
    have c': "length c \<le> maxCacheSize \<longrightarrow>
               10 * (length ?l - length (cleanup c now)) = 3 * length ?l"
      using len big length_liveEntries[of c now] by (auto simp: maxCacheSize_def)
    have d': "\<forall>x \<in> set ?l - set (cleanup c now). \<forall>y \<in> set (cleanup c now).
                 lastAccessed (snd x) \<le> lastAccessed (snd y)"
    proof (intro ballI)
      fix x y assume x: "x \<in> set ?l - set (cleanup c now)" and y: "y \<in> set (cleanup c now)"
      have "x \<in> set (lruVictims ?l)" using x by (auto simp: cl')
      moreover have "y \<in> set ?l" "y \<notin> set (lruVictims ?l)" using y by (auto simp: cl')
      ultimately show "lastAccessed (snd x) \<le> lastAccessed (snd y)"
        by (rule victims_oldest)
    qed
    have e': "\<forall>x \<in> set ?l.
               30 \<le> length (filter (\<lambda>q. lastAccessed (snd q) < lastAccessed (snd x)) ?l)
               \<longrightarrow> x \<in> set (cleanup c now)"
    proof (intro ballI impI)
      fix x assume x: "x \<in> set ?l"
        and n: "30 \<le> length (filter (\<lambda>q. lastAccessed (snd q) < lastAccessed (snd x)) ?l)"
      have "x \<notin> set (lruVictims ?l)"
        using fresher_survives[OF x] n by (simp add: lruTrimCount_eq)
      then show "x \<in> set (cleanup c now)" using x by (simp add: cl')
    qed
    show "length (cleanup c now) = length ?l - 30
          \<and> 10 * 30 = 3 * maxCacheSize
          \<and> (length c \<le> maxCacheSize \<longrightarrow>
               10 * (length ?l - length (cleanup c now)) = 3 * length ?l)
          \<and> (\<forall>x \<in> set ?l - set (cleanup c now). \<forall>y \<in> set (cleanup c now).
                 lastAccessed (snd x) \<le> lastAccessed (snd y))
          \<and> (\<forall>x \<in> set ?l.
               30 \<le> length (filter (\<lambda>q. lastAccessed (snd q) < lastAccessed (snd x)) ?l)
               \<longrightarrow> x \<in> set (cleanup c now))"
      by (intro conjI a b c' d' e')
  qed
  have p5: "\<forall>c0 k t v. distinct (map fst c0) \<and> get c0 k t = (Some v, c) \<longrightarrow>
            (\<exists>e. map_of c k = Some e \<and> lastAccessed e = t \<and> data e = v)"
    by (intro allI impI) (metis get_hit_entry)
  show ?thesis by (intro conjI p1 p2 p3 p4 p5)
qed


theorem cleanup_expired_then_lru_witness:
  "distinct (map fst refreshedCache) \<and> maxCacheSize \<le> length refreshedCache
   \<and> get sampleCache ''0'' 200 = (Some 0, refreshedCache)
   \<and> length (cleanup refreshedCache 300) = 70
   \<and> refreshedEntry \<in> set (cleanup refreshedCache 300)"
proof -
  have h1: "distinct (map fst refreshedCache)" by code_simp
  have h2: "maxCacheSize \<le> length refreshedCache" by code_simp
  have h3: "get sampleCache ''0'' 200 = (Some 0, refreshedCache)" by code_simp
  have l: "length (liveEntries refreshedCache 300) = 100" by code_simp
  have m: "refreshedEntry \<in> set (liveEntries refreshedCache 300)" by code_simp
  have n: "30 \<le> length (filter (\<lambda>q. lastAccessed (snd q) < lastAccessed (snd refreshedEntry))
                         (liveEntries refreshedCache 300))"
    by code_simp
  have big: "maxCacheSize \<le> length (liveEntries refreshedCache 300)"
    unfolding l by (simp add: maxCacheSize_def)
  note t = cleanup_expired_then_lru[OF h1 h2, of "''k''" 0 0 300]
  note t4 = t[THEN conjunct2, THEN conjunct2, THEN conjunct2, THEN conjunct1, rule_format, OF big]
  have a: "length (cleanup refreshedCache 300) = 70"
    using t4[THEN conjunct1] unfolding l by simp
  have b: "refreshedEntry \<in> set (cleanup refreshedCache 300)"
    using t4[THEN conjunct2, THEN conjunct2, THEN conjunct2, THEN conjunct2, rule_format, OF m n] .
  show ?thesis by (intro conjI h1 h2 h3 a b)
qed

section \<open>The usage ledger\<close>

lemma double_bounds_nonneg:
  assumes "0 \<le> x"
  shows "x - x / 2 ^ 53 \<le> double x" and "double x \<le> x + x / 2 ^ 53"
  using double_err[of x] assms by (simp_all add: abs_if split: if_splits)

lemma double_bounds_nonpos:
  assumes "x \<le> 0"
  shows "double x \<le> x - x / 2 ^ 53"
  using double_err[of x] assms by (simp_all add: abs_if split: if_splits)

lemma usagePercent_high:
  assumes "143 \<le> n"
  shows "95 \<le> fmul (fdiv (of_int n) (of_int dailyLimit)) 100"
proof -
  define y :: rat where "y = of_int n / 150"
  have "(143::rat) \<le> of_int n" using assms by (metis of_int_le_iff of_int_numeral)
  then have y: "143 / 150 \<le> y" by (simp add: y_def)
  then have y0: "0 \<le> y" by simp
  have d1: "953 / 1000 \<le> double y"
    using double_bounds_nonneg(1)[OF y0] y by simp
  then have z0: "0 \<le> double y * 100" by simp
  have "95 \<le> double (double y * 100)"
    using double_bounds_nonneg(1)[OF z0] d1 by simp
  then show ?thesis by (simp add: fmul_def fdiv_def dailyLimit_def y_def)
qed

lemma usagePercent_low:
  assumes "n \<le> 142"
  shows "fmul (fdiv (of_int n) (of_int dailyLimit)) 100 < 95"
proof -
  define y :: rat where "y = of_int n / 150"
  have "of_int n \<le> (142::rat)" using assms by (metis of_int_le_iff of_int_numeral)
  then have y: "y \<le> 142 / 150" by (simp add: y_def)
  have "double (double y * 100) < 95"
  proof (cases "0 \<le> y")
    case True
    have d1: "double y \<le> 947 / 1000" "0 \<le> double y"
      using double_bounds_nonneg[OF True] y True by simp_all
    then have z0: "0 \<le> double y * 100" by simp
    show ?thesis
      using double_bounds_nonneg(2)[OF z0] d1 by simp
  next
    case False
    then have "y \<le> 0" by simp
    then have "double y \<le> 0"
      using double_bounds_nonpos[of y] by simp
    then have z0: "double y * 100 \<le> 0" by simp
    show ?thesis
      using double_bounds_nonpos[OF z0] z0 by simp
  qed
  then show ?thesis by (simp add: fmul_def fdiv_def dailyLimit_def y_def)
qed

lemma critical_iff:
  "(getUsageStatus (fmul (fdiv (of_int n) (of_int dailyLimit)) 100) = Critical) = (143 \<le> n)"
proof (cases "143 \<le> n")
  case True
  then show ?thesis
    using usagePercent_high[OF True] by (simp add: getUsageStatus_def critical_level)
next
  case False
  then have "n \<le> 142" by simp
  then show ?thesis
    using usagePercent_low[of n] False by (simp add: getUsageStatus_def critical_level)
qed

lemma ratio_iff: "((95::rat) / 100 \<le> of_int n / of_int dailyLimit) = (143 \<le> n)"
proof -
  have "((95::rat) / 100 \<le> of_int n / 150) = ((285::rat) \<le> 2 * of_int n)"
    by (simp add: field_simps)
  also have "\<dots> = ((of_int 285 :: rat) \<le> of_int (2 * n))" by simp
  also have "\<dots> = (285 \<le> 2 * n)" by (simp only: of_int_le_iff)
  also have "\<dots> = (143 \<le> n)" by presburger
  finally show ?thesis by (simp add: dailyLimit_def)
qed

text \<open>
  Claim C8. For every stored ledger and every clock, \<^verbatim>\<open>canMakeCall()\<close> is
  false exactly when the calls of the ledger as read reach the daily limit of
  150, and the status of \<^verbatim>\<open>getUsageStats()\<close> is critical exactly when calls
  divided by the limit is at least 0.95 as a fraction. The code compares
  the rounded product \<open>(calls / 150) * 100\<close> with the rounded product
  \<open>0.95 * 100\<close>; the latter is the double 95, and the rounding errors of the
  former cannot carry it across 95, since calls is an integer.
\<close>

theorem quota_gating:
  "(\<not> canMakeCall st clk) = (dailyLimit \<le> calls (getUsageData st clk))
   \<and> dailyLimit = 150
   \<and> stats_canMakeCall (getUsageStats st clk) = canMakeCall st clk
   \<and> (stats_status (getUsageStats st clk) = Critical)
       = ((95::rat) / 100 \<le> of_int (calls (getUsageData st clk)) / of_int dailyLimit)"
proof -
  have a: "(\<not> canMakeCall st clk) = (dailyLimit \<le> calls (getUsageData st clk))"
    by (simp add: canMakeCall_def not_less)
  have b: "dailyLimit = 150" by (simp add: dailyLimit_def)
  have c: "stats_canMakeCall (getUsageStats st clk) = canMakeCall st clk"
    by (simp add: canMakeCall_def getUsageStats_def Let_def)
  have "stats_status (getUsageStats st clk)
          = getUsageStatus (fmul (fdiv (of_int (calls (getUsageData st clk))) (of_int dailyLimit)) 100)"
    by (simp add: getUsageStats_def Let_def)
  then have d: "(stats_status (getUsageStats st clk) = Critical)
       = ((95::rat) / 100 \<le> of_int (calls (getUsageData st clk)) / of_int dailyLimit)"
    by (simp only: critical_iff ratio_iff)
  show ?thesis by (intro conjI a b c d)
qed

lemma complexSearch_not_inherited: "''/complexSearch'' \<notin> set objectPrototypeNames"
  by (simp add: objectPrototypeNames_def)

lemma complexSearch_first_tally:
  "assignProperty [] ''/complexSearch'' (nextTally [] ''/complexSearch'')
     = [(''/complexSearch'', Count 1)]"
  by code_simp

text \<open>
  Claim C9. Every function that reads the ledger reads it through
  \<^verbatim>\<open>getUsageData\<close>. When the stored date is not today's date string, that
  read yields the zeroed ledger dated today: \<^verbatim>\<open>canMakeCall()\<close> is true, the
  statistics report no calls, and the recording functions count from zero,
  \<^verbatim>\<open>recordCall\<close> for the endpoint \<^verbatim>\<open>/complexSearch\<close> that the service
  records. The instance with 150 calls stored yesterday follows it.
\<close>

theorem ledger_day_rollover:
  assumes "stored st = Item d" and "date d \<noteq> dateString clk"
  shows "getUsageData st clk = zeroLedger clk
       \<and> calls (getUsageData st clk) = 0
       \<and> canMakeCall st clk
       \<and> stats_calls (getUsageStats st clk) = 0
       \<and> stats_canMakeCall (getUsageStats st clk)
       \<and> fst (recordCall st clk ''/complexSearch'' True)
           = (zeroLedger clk)\<lparr>calls := 1, endpoints := [(''/complexSearch'', Count 1)]\<rparr>
       \<and> fst (recordCall st clk ''/complexSearch'' False) = (zeroLedger clk)\<lparr>errors := 1\<rparr>
       \<and> fst (recordCacheHit st clk) = (zeroLedger clk)\<lparr>cached := 1\<rparr>"
proof -
  have g: "getUsageData st clk = zeroLedger clk"
    using assms by (simp add: getUsageData_def createNewUsageData_def zeroLedger_def)
  have e: "endpoints (zeroLedger clk) = []" by (simp add: zeroLedger_def)
  show ?thesis
    unfolding canMakeCall_def getUsageStats_def recordCall_def recordCacheHit_def Let_def g e
      complexSearch_first_tally
    by (simp add: zeroLedger_def dailyLimit_def)
qed

theorem ledger_day_rollover_witness:
  "calls (getUsageData yesterdayStore yesterdayClock) = 150
   \<and> \<not> canMakeCall yesterdayStore yesterdayClock
   \<and> calls (getUsageData yesterdayStore todayClock) = 0
   \<and> canMakeCall yesterdayStore todayClock"
proof -
  have s: "stored yesterdayStore = Item \<lparr>date = ''Sat Oct 31 2026'', calls = 150,
                       endpoints = [(''/complexSearch'', Count 150)], lastReset = 1793400000000,
                       errors = 2, cached = 7\<rparr>"
    by (simp add: yesterdayStore_def)
  have n: "date \<lparr>date = ''Sat Oct 31 2026'', calls = 150,
                       endpoints = [(''/complexSearch'', Count 150)], lastReset = 1793400000000,
                       errors = 2, cached = 7\<rparr> \<noteq> dateString todayClock"
    by (simp add: todayClock_def)
  note t = ledger_day_rollover[OF s n]
  have a: "calls (getUsageData yesterdayStore yesterdayClock) = 150"
    by (simp add: getUsageData_def yesterdayStore_def yesterdayClock_def)
  have b: "\<not> canMakeCall yesterdayStore yesterdayClock"
    by (simp add: canMakeCall_def a dailyLimit_def)
  show ?thesis
    using t a b by blast
qed

theorem quota_gating_witness:
  "stats_status (getUsageStats yesterdayStore yesterdayClock) = Critical
   \<and> \<not> canMakeCall yesterdayStore yesterdayClock
   \<and> stats_status (getUsageStats yesterdayStore todayClock) = Normal
   \<and> canMakeCall yesterdayStore todayClock"
proof -
  have a: "calls (getUsageData yesterdayStore yesterdayClock) = 150"
    by (simp add: getUsageData_def yesterdayStore_def yesterdayClock_def)
  have b: "calls (getUsageData yesterdayStore todayClock) = 0"
    by (simp add: getUsageData_def yesterdayStore_def todayClock_def createNewUsageData_def)
  have z: "fmul (fdiv (of_int 0) (of_int dailyLimit)) 100 = 0"
    by (simp add: fdiv_def fmul_def double_def)
  have "stats_status (getUsageStats yesterdayStore todayClock)
          = getUsageStatus (fmul (fdiv (of_int 0) (of_int dailyLimit)) 100)"
    unfolding getUsageStats_def Let_def b by simp
  then have c: "stats_status (getUsageStats yesterdayStore todayClock) = Normal"
    unfolding z by (simp add: getUsageStatus_def critical_level warning_level)
  note t1 = quota_gating[of yesterdayStore yesterdayClock]
  note t2 = quota_gating[of yesterdayStore todayClock]
  have "stats_status (getUsageStats yesterdayStore yesterdayClock) = Critical"
    using t1 unfolding a by (simp add: dailyLimit_def)
  moreover have "\<not> canMakeCall yesterdayStore yesterdayClock"
    using t1 unfolding a by (simp add: dailyLimit_def)
  moreover have "canMakeCall yesterdayStore todayClock"
    using t2 unfolding b by (simp add: dailyLimit_def)
  ultimately show ?thesis using c by blast
qed

section \<open>Falling back to the local catalogue\<close>

lemma get_miss_absent:
  assumes "fst (get c k t) = None"
  shows "map_of (snd (get c k t)) k = None" and "set (snd (get c k t)) \<subseteq> set c"
proof -
  show "map_of (snd (get c k t)) k = None"
    using assms by (auto simp: get_def delete_conv' split: option.splits if_splits)
  show "set (snd (get c k t)) \<subseteq> set c"
    using assms by (auto simp: get_def delete_as_filter split: option.splits if_splits)
qed

lemma searchRecipes_fallback:
  assumes "fst (get (searchCache s) (searchKey query options) (dateNow clk0)) = None"
    and "\<not> isApiConfigured env \<or> \<not> canMakeCall (usageStore s) clk0"
  shows "searchRecipes env network clk0 clk1 query options s =
           (Inr (getLocalRecipes query options),
            s\<lparr>searchCache := snd (get (searchCache s) (searchKey query options) (dateNow clk0))\<rparr>)"
proof -
  obtain r c1 where g: "get (searchCache s) (searchKey query options) (dateNow clk0) = (r, c1)"
    by (cases "get (searchCache s) (searchKey query options) (dateNow clk0)")
  have r: "r = None" using assms(1) g by simp
  show ?thesis
    using assms(2) g r
    by (auto simp: searchRecipes_def Let_def searchKey_def[symmetric])
qed

lemma chicken_recipes:
  "map recipeId (getLocalRecipes ''chicken'' []) = [63, 11, 12, 13, 15, 18, 19]"
  by code_simp

lemma getLocalRecipes_subset: "set (getLocalRecipes query options) \<subseteq> set recipeDatabase"
  by (auto simp: getLocalRecipes_def Let_def)

text \<open>
  Claim C3. Let the cache miss for the search for \<^verbatim>\<open>chicken\<close> with empty
  options, and let the credential be missing or \<^verbatim>\<open>canMakeCall()\<close> be false.
  Then \<^verbatim>\<open>searchRecipes\<close> returns what the local catalogue gives for
  \<^verbatim>\<open>chicken\<close>, which is not empty; it sends no request; it leaves the stored
  ledger, and so its calls, as it was; and it adds nothing to the cache,
  which afterwards has no entry under the key of this search.
\<close>

theorem fallback_substitution:
  assumes "fst (get (searchCache s) (searchKey ''chicken'' []) (dateNow clk0)) = None"
    and "\<not> isApiConfigured env \<or> \<not> canMakeCall (usageStore s) clk0"
  shows "fst (searchRecipes env network clk0 clk1 ''chicken'' [] s)
           = Inr (getLocalRecipes ''chicken'' [])
       \<and> getLocalRecipes ''chicken'' [] \<noteq> []
       \<and> set (getLocalRecipes ''chicken'' []) \<subseteq> set recipeDatabase
       \<and> requestLog (snd (searchRecipes env network clk0 clk1 ''chicken'' [] s)) = requestLog s
       \<and> usageStore (snd (searchRecipes env network clk0 clk1 ''chicken'' [] s)) = usageStore s
       \<and> set (searchCache (snd (searchRecipes env network clk0 clk1 ''chicken'' [] s)))
            \<subseteq> set (searchCache s)
       \<and> map_of (searchCache (snd (searchRecipes env network clk0 clk1 ''chicken'' [] s)))
            (searchKey ''chicken'' []) = None"
proof -
  note e = searchRecipes_fallback[OF assms, of network clk1]
  have n: "getLocalRecipes ''chicken'' [] \<noteq> []"
    using chicken_recipes by auto
  show ?thesis
    unfolding e
    using n getLocalRecipes_subset[of "''chicken''" "[]"] get_miss_absent[OF assms(1)]
    by simp
qed

lemma configuredEnv_ok: "isApiConfigured configuredEnv"
  by (simp add: isApiConfigured_def API_KEY_def configuredEnv_def placeholderKey_def)

theorem fallback_substitution_witness:
  "\<not> canMakeCall (usageStore limitState) yesterdayClock
   \<and> fst (searchRecipes configuredEnv apiNetwork yesterdayClock yesterdayClock ''chicken'' [] limitState)
       = Inr (getLocalRecipes ''chicken'' [])
   \<and> map recipeId (getLocalRecipes ''chicken'' []) = [63, 11, 12, 13, 15, 18, 19]
   \<and> requestLog
         (snd (searchRecipes configuredEnv apiNetwork yesterdayClock yesterdayClock ''chicken'' []
                 limitState)) = []
   \<and> usageStore
         (snd (searchRecipes configuredEnv apiNetwork yesterdayClock yesterdayClock ''chicken'' []
                 limitState)) = yesterdayStore"
proof -
  have m: "fst (get (searchCache limitState) (searchKey ''chicken'' []) (dateNow yesterdayClock)) = None"
    by (simp add: limitState_def get_def)
  have q: "\<not> canMakeCall (usageStore limitState) yesterdayClock"
    by (simp add: limitState_def canMakeCall_def getUsageData_def yesterdayStore_def
        yesterdayClock_def dailyLimit_def)
  then have h: "\<not> isApiConfigured configuredEnv
                 \<or> \<not> canMakeCall (usageStore limitState) yesterdayClock"
    by simp
  note t = fallback_substitution[OF m h, of apiNetwork yesterdayClock]
  have l: "requestLog limitState = []" "usageStore limitState = yesterdayStore"
    by (simp_all add: limitState_def)
  show ?thesis
    using t q chicken_recipes unfolding l by blast
qed

lemma special_query_filters:
  assumes "query = [] \<or> query = ''random'' \<or> query = ''similar''"
  shows "getLocalRecipes query options =
           (let byCategory =
                  (if truthy (getProperty options ''category'')
                      \<and> getProperty options ''category'' \<noteq> JStr ''all''
                   then filter (\<lambda>r. JStr (category r) = getProperty options ''category'')
                          recipeDatabase
                   else recipeDatabase)
            in if getProperty options ''vegetarian'' \<noteq> JNull
                  \<and> getProperty options ''vegetarian'' \<noteq> JUndefined
               then filter (\<lambda>r. JBool (vegetarian r) = getProperty options ''vegetarian'')
                      byCategory
               else byCategory)"
  using assms by (auto simp: getLocalRecipes_def Let_def)

lemma no_recipe_mentions_random:
  "filter (\<lambda>r. includes_str (toLowerCase (title r)) (toLowerCase ''random'')
              \<or> includes_str (toLowerCase (summary r)) (toLowerCase ''random''))
     recipeDatabase = []"
  by code_simp

lemma length_recipeDatabase: "length recipeDatabase = 55"
  by (simp add: recipeDatabase_def)

text \<open>
  Claim C10, amended. For the queries \<^verbatim>\<open>random\<close> and \<^verbatim>\<open>similar\<close> and for
  the empty query, \<^verbatim>\<open>getLocalRecipes\<close> applies no text filter: it returns
  the whole catalogue narrowed by the category and vegetarian options only,
  and all of it when no option is given. So when the cache misses and the
  credential is missing or the quota is used up, \<^verbatim>\<open>searchRecipes\<close> for
  \<^verbatim>\<open>random\<close> with empty options returns every local recipe, where a text
  filter for \<^verbatim>\<open>random\<close> would keep none.
\<close>

theorem special_queries_skip_text_filter:
  assumes "query = [] \<or> query = ''random'' \<or> query = ''similar''"
  shows "getLocalRecipes query options =
           (let byCategory =
                  (if truthy (getProperty options ''category'')
                      \<and> getProperty options ''category'' \<noteq> JStr ''all''
                   then filter (\<lambda>r. JStr (category r) = getProperty options ''category'')
                          recipeDatabase
                   else recipeDatabase)
            in if getProperty options ''vegetarian'' \<noteq> JNull
                  \<and> getProperty options ''vegetarian'' \<noteq> JUndefined
               then filter (\<lambda>r. JBool (vegetarian r) = getProperty options ''vegetarian'')
                      byCategory
               else byCategory)
       \<and> getLocalRecipes query [] = recipeDatabase
       \<and> (fst (get (searchCache s) (searchKey ''random'' []) (dateNow clk0)) = None
            \<and> (\<not> isApiConfigured env \<or> \<not> canMakeCall (usageStore s) clk0)
          \<longrightarrow> fst (searchRecipes env network clk0 clk1 ''random'' [] s) = Inr recipeDatabase)
       \<and> filter (\<lambda>r. includes_str (toLowerCase (title r)) (toLowerCase ''random'')
                    \<or> includes_str (toLowerCase (summary r)) (toLowerCase ''random''))
            recipeDatabase \<noteq> recipeDatabase"
proof -
  have a: "getLocalRecipes query [] = recipeDatabase"
    using assms by (auto simp: getLocalRecipes_def Let_def getProperty_def truthy_def)
  have r: "getLocalRecipes ''random'' [] = recipeDatabase"
    by (simp add: getLocalRecipes_def Let_def getProperty_def truthy_def)
  have b: "fst (get (searchCache s) (searchKey ''random'' []) (dateNow clk0)) = None
            \<and> (\<not> isApiConfigured env \<or> \<not> canMakeCall (usageStore s) clk0)
          \<longrightarrow> fst (searchRecipes env network clk0 clk1 ''random'' [] s) = Inr recipeDatabase"
  proof
    assume h: "fst (get (searchCache s) (searchKey ''random'' []) (dateNow clk0)) = None
            \<and> (\<not> isApiConfigured env \<or> \<not> canMakeCall (usageStore s) clk0)"
    show "fst (searchRecipes env network clk0 clk1 ''random'' [] s) = Inr recipeDatabase"
      using searchRecipes_fallback[OF conjunct1[OF h] conjunct2[OF h], of network clk1] r
      by simp
  qed
  have c: "filter (\<lambda>r. includes_str (toLowerCase (title r)) (toLowerCase ''random'')
                    \<or> includes_str (toLowerCase (summary r)) (toLowerCase ''random''))
            recipeDatabase \<noteq> recipeDatabase"
    unfolding no_recipe_mentions_random
  proof
    assume "[] = recipeDatabase"
    then have "length ([] :: recipe list) = length recipeDatabase" by (rule arg_cong)
    then show False by (simp add: length_recipeDatabase)
  qed
  show ?thesis
    by (intro conjI special_query_filters[OF assms] a b c)
qed

theorem special_queries_skip_text_filter_witness:
  "getLocalRecipes ''random'' [] = recipeDatabase
   \<and> length recipeDatabase = 55
   \<and> fst (searchRecipes configuredEnv apiNetwork yesterdayClock yesterdayClock ''random'' [] limitState)
       = Inr recipeDatabase"
proof -
  have q: "''random'' = [] \<or> ''random'' = ''random'' \<or> ''random'' = ''similar''" by simp
  have m: "fst (get (searchCache limitState) (searchKey ''random'' []) (dateNow yesterdayClock)) = None"
    by (simp add: limitState_def get_def)
  have n: "\<not> canMakeCall (usageStore limitState) yesterdayClock"
    by (simp add: limitState_def canMakeCall_def getUsageData_def yesterdayStore_def
        yesterdayClock_def dailyLimit_def)
  note t = special_queries_skip_text_filter[OF q, of "[]" limitState yesterdayClock configuredEnv
      apiNetwork yesterdayClock]
  show ?thesis
    using t m n length_recipeDatabase by blast
qed

text \<open>
  Claim C10 as stated leaves the cache out. With a configured credential
  and 149 calls made today, a search for \<^verbatim>\<open>random\<close> goes to the network
  and its result is cached; the quota is then used up, and the same search
  repeated returns the cached result of the remote service without a
  request, not the local catalogue.
\<close>

theorem cached_result_precedes_fallback_counterexample:
  "isApiConfigured configuredEnv
   \<and> \<not> canMakeCall (usageStore exhaustedState) todayClock
   \<and> fst (searchRecipes configuredEnv apiNetwork todayClock todayClock ''random'' [] exhaustedState)
       = Inr [apiRecipe]
   \<and> requestLog
         (snd (searchRecipes configuredEnv apiNetwork todayClock todayClock ''random'' []
                 exhaustedState)) = requestLog exhaustedState
   \<and> (Inr [apiRecipe] :: serviceError + recipe list) \<noteq> Inr recipeDatabase"
proof -
  have a: "\<not> canMakeCall (usageStore exhaustedState) todayClock" by code_simp
  have b: "fst (searchRecipes configuredEnv apiNetwork todayClock todayClock ''random'' []
                  exhaustedState) = Inr [apiRecipe]"
    by code_simp
  have c: "requestLog
             (snd (searchRecipes configuredEnv apiNetwork todayClock todayClock ''random'' []
                     exhaustedState)) = requestLog exhaustedState"
    by code_simp
  have d: "(Inr [apiRecipe] :: serviceError + recipe list) \<noteq> Inr recipeDatabase"
  proof
    assume "(Inr [apiRecipe] :: serviceError + recipe list) = Inr recipeDatabase"
    then have "[apiRecipe] = recipeDatabase" by simp
    then have "length [apiRecipe] = length recipeDatabase" by (rule arg_cong)
    then show False by (simp add: length_recipeDatabase)
  qed
  show ?thesis by (intro conjI configuredEnv_ok a b c d)
qed

section \<open>Searching through the cache and the ledger\<close>

lemma searchRecipes_network_success:
  assumes "searchCache s = []"
    and "isApiConfigured env"
    and "canMakeCall (usageStore s) clk0"
    and "network (complexSearchRequest query options) = Resolved (Some payload)"
  shows "searchRecipes env network clk0 clk1 query options s =
           (Inr (case payload of Some rs \<Rightarrow> rs | None \<Rightarrow> []),
            \<lparr>searchCache =
               [(searchKey query options,
                 \<lparr>data = (case payload of Some rs \<Rightarrow> rs | None \<Rightarrow> []),
                  expiresAt = dateNow clk1 + CACHE_TTL_SEARCH_RESULTS,
                  lastAccessed = dateNow clk1, createdAt = dateNow clk1\<rparr>)],
             usageStore = snd (recordCall (usageStore s) clk1 ''/complexSearch'' True),
             requestLog = requestLog s @ [complexSearchRequest query options]\<rparr>)"
  using assms
  by (simp add: searchRecipes_def Let_def get_def set_c_def maxCacheSize_def
      searchKey_def[symmetric])

lemma searchRecipes_hit:
  assumes "map_of (searchCache s) (searchKey query options) = Some e"
    and "\<not> dateNow clk0 > expiresAt e"
  shows "searchRecipes env network clk0 clk1 query options s =
           (Inr (data e),
            s\<lparr>searchCache :=
                 AList.update (searchKey query options) (e\<lparr>lastAccessed := dateNow clk0\<rparr>)
                   (searchCache s),
               usageStore := snd (recordCacheHit (usageStore s) clk0)\<rparr>)"
  using assms
  by (simp add: searchRecipes_def Let_def get_def searchKey_def[symmetric])

lemma recordCall_success_fresh:
  assumes "writable st" and "calls (getUsageData st clk) = 0" and "cached (getUsageData st clk) = 0"
  shows "stored (snd (recordCall st clk ep True)) = Item (fst (recordCall st clk ep True))"
    and "calls (fst (recordCall st clk ep True)) = 1"
    and "cached (fst (recordCall st clk ep True)) = 0"
    and "date (fst (recordCall st clk ep True)) = dateString clk"
    and "writable (snd (recordCall st clk ep True))"
  using assms
  by (auto simp: recordCall_def Let_def saveUsageData_def getUsageData_def createNewUsageData_def
      split: storedItem.splits if_splits)

text \<open>
  Claim C2. Start with an empty search cache, a configured credential and a
  ledger that reads zero calls and zero cache hits, in a storage slot that
  accepts writes. Let the network answer the search with data. Then the
  call returns the results of the answer after one request; the ledger
  reads one call; and the cache holds the results under the key made from
  the operation name and the sorted parameters of the search. Let the same
  search be repeated on the same day before the entry expires. It returns
  the same results, sends no request, and the ledger then reads one call
  and one cache hit.
\<close>

theorem search_then_cached:
  assumes "searchCache s = []"
    and "isApiConfigured env"
    and "writable (usageStore s)"
    and "calls (getUsageData (usageStore s) clk0) = 0"
    and "cached (getUsageData (usageStore s) clk0) = 0"
    and "dateString clk1 = dateString clk0"
    and "network (complexSearchRequest query options) = Resolved (Some payload)"
    and "dateString clk2 = dateString clk0"
    and "dateNow clk2 \<le> dateNow clk1 + CACHE_TTL_SEARCH_RESULTS"
  shows "fst (searchRecipes env network clk0 clk1 query options s)
           = Inr (case payload of Some rs \<Rightarrow> rs | None \<Rightarrow> [])
       \<and> requestLog (snd (searchRecipes env network clk0 clk1 query options s))
           = requestLog s @ [complexSearchRequest query options]
       \<and> calls (getUsageData
                   (usageStore (snd (searchRecipes env network clk0 clk1 query options s))) clk2) = 1
       \<and> searchCache (snd (searchRecipes env network clk0 clk1 query options s))
           = [(generateKey ''complexSearch'' (searchKeyParams query options),
               \<lparr>data = (case payload of Some rs \<Rightarrow> rs | None \<Rightarrow> []),
                expiresAt = dateNow clk1 + CACHE_TTL_SEARCH_RESULTS,
                lastAccessed = dateNow clk1, createdAt = dateNow clk1\<rparr>)]
       \<and> fst (searchRecipes env network2 clk2 clk3 query options
                 (snd (searchRecipes env network clk0 clk1 query options s)))
           = Inr (case payload of Some rs \<Rightarrow> rs | None \<Rightarrow> [])
       \<and> requestLog (snd (searchRecipes env network2 clk2 clk3 query options
                             (snd (searchRecipes env network clk0 clk1 query options s))))
           = requestLog (snd (searchRecipes env network clk0 clk1 query options s))
       \<and> calls (getUsageData
                   (usageStore (snd (searchRecipes env network2 clk2 clk3 query options
                                       (snd (searchRecipes env network clk0 clk1 query options s)))))
                   clk2) = 1
       \<and> cached (getUsageData
                    (usageStore (snd (searchRecipes env network2 clk2 clk3 query options
                                        (snd (searchRecipes env network clk0 clk1 query options s)))))
                    clk2) = 1"
proof -
  define results where "results = (case payload of Some rs \<Rightarrow> rs | None \<Rightarrow> [])"
  define e where
    "e = \<lparr>data = results, expiresAt = dateNow clk1 + CACHE_TTL_SEARCH_RESULTS,
          lastAccessed = dateNow clk1, createdAt = dateNow clk1\<rparr>"
  define st1 where "st1 = snd (recordCall (usageStore s) clk1 ''/complexSearch'' True)"
  define s1 where
    "s1 = \<lparr>searchCache = [(searchKey query options, e)], usageStore = st1,
           requestLog = requestLog s @ [complexSearchRequest query options]\<rparr>"
  have can: "canMakeCall (usageStore s) clk0"
    using assms(4) by (simp add: canMakeCall_def dailyLimit_def)
  have first: "searchRecipes env network clk0 clk1 query options s = (Inr results, s1)"
    using searchRecipes_network_success[where network=network and ?clk1.0=clk1, OF assms(1,2) can assms(7)]
    by (simp add: results_def e_def s1_def st1_def)
  have g1: "getUsageData (usageStore s) clk1 = getUsageData (usageStore s) clk0 \<or>
            (calls (getUsageData (usageStore s) clk1) = 0
             \<and> cached (getUsageData (usageStore s) clk1) = 0)"
    using assms(6) by (auto simp: getUsageData_def createNewUsageData_def split: storedItem.splits)
  have z1: "calls (getUsageData (usageStore s) clk1) = 0"
           "cached (getUsageData (usageStore s) clk1) = 0"
    using g1 assms(4,5) by auto
  note rc = recordCall_success_fresh[OF assms(3) z1, of "''/complexSearch''"]
  have d12: "dateString clk2 = dateString clk1" using assms(6,8) by simp
  have read1: "getUsageData st1 clk2 = fst (recordCall (usageStore s) clk1 ''/complexSearch'' True)"
    using rc(1,4) d12 by (simp add: st1_def getUsageData_def)
  have c1: "calls (getUsageData st1 clk2) = 1" and h1: "cached (getUsageData st1 clk2) = 0"
    using rc(2,3) by (simp_all add: read1)
  have w1: "writable st1" using rc(5) by (simp add: st1_def)
  have m: "map_of (searchCache s1) (searchKey query options) = Some e"
    by (simp add: s1_def)
  have live: "\<not> dateNow clk2 > expiresAt e"
    using assms(9) by (simp add: e_def)
  have second: "searchRecipes env network2 clk2 clk3 query options s1 =
           (Inr results,
            s1\<lparr>searchCache :=
                 AList.update (searchKey query options) (e\<lparr>lastAccessed := dateNow clk2\<rparr>)
                   (searchCache s1),
               usageStore := snd (recordCacheHit st1 clk2)\<rparr>)"
    using searchRecipes_hit[where network=network2 and env=env and ?clk1.0=clk3, OF m live] by (simp add: e_def s1_def)
  have read2: "getUsageData (snd (recordCacheHit st1 clk2)) clk2
                 = (getUsageData st1 clk2)\<lparr>cached := cached (getUsageData st1 clk2) + 1\<rparr>"
  proof -
    have "date (getUsageData st1 clk2) = dateString clk2"
      by (auto simp: getUsageData_def createNewUsageData_def split: storedItem.splits)
    then show ?thesis
      using w1 by (simp add: recordCacheHit_def Let_def saveUsageData_def getUsageData_def)
  qed
  have c2: "calls (getUsageData (snd (recordCacheHit st1 clk2)) clk2) = 1"
    and h2: "cached (getUsageData (snd (recordCacheHit st1 clk2)) clk2) = 1"
    using c1 h1 by (simp_all add: read2)
  show ?thesis
    unfolding first results_def[symmetric]
    apply (simp only: fst_conv snd_conv second)
    using c1 c2 h2
    by (simp add: s1_def e_def searchKey_def)
qed

theorem search_then_cached_witness:
  "fst (searchRecipes configuredEnv apiNetwork todayClock todayClock ''pasta'' pastaOptions freshState)
     = Inr [apiRecipe]
   \<and> requestLog afterFirstSearch = [complexSearchRequest ''pasta'' pastaOptions]
   \<and> calls (getUsageData (usageStore afterFirstSearch) todayClock) = 1
   \<and> map fst (searchCache afterFirstSearch)
       = [''complexSearch:{'' @ [CHR 0x22] @ ''number'' @ [CHR 0x22] @ '':5,'' @ [CHR 0x22]
            @ ''query'' @ [CHR 0x22] @ '':'' @ [CHR 0x22] @ ''pasta'' @ [CHR 0x22] @ ''}'']
   \<and> fst (searchRecipes configuredEnv apiNetwork todayClock todayClock ''pasta'' pastaOptions
            afterFirstSearch) = Inr [apiRecipe]
   \<and> requestLog
         (snd (searchRecipes configuredEnv apiNetwork todayClock todayClock ''pasta'' pastaOptions
                 afterFirstSearch)) = requestLog afterFirstSearch
   \<and> calls (getUsageData
               (usageStore
                  (snd (searchRecipes configuredEnv apiNetwork todayClock todayClock ''pasta''
                          pastaOptions afterFirstSearch))) todayClock) = 1
   \<and> cached (getUsageData
                (usageStore
                   (snd (searchRecipes configuredEnv apiNetwork todayClock todayClock ''pasta''
                           pastaOptions afterFirstSearch))) todayClock) = 1"
proof -
  have h1: "searchCache freshState = []" by (simp add: freshState_def)
  have h3: "writable (usageStore freshState)" by (simp add: freshState_def)
  have h4: "calls (getUsageData (usageStore freshState) todayClock) = 0"
    by (simp add: freshState_def getUsageData_def createNewUsageData_def)
  have h5: "cached (getUsageData (usageStore freshState) todayClock) = 0"
    by (simp add: freshState_def getUsageData_def createNewUsageData_def)
  have h6: "dateString todayClock = dateString todayClock" by simp
  have h7: "apiNetwork (complexSearchRequest ''pasta'' pastaOptions)
              = Resolved (Some (Some [apiRecipe]))"
    by (simp add: apiNetwork_def)
  have h9: "dateNow todayClock \<le> dateNow todayClock + CACHE_TTL_SEARCH_RESULTS"
    by (simp add: CACHE_TTL_SEARCH_RESULTS_def)
  note t = search_then_cached[where network=apiNetwork and ?network2.0=apiNetwork
      and ?clk3.0=todayClock, OF h1 configuredEnv_ok h3 h4 h5 h6 h7 h6 h9,
      unfolded afterFirstSearch_def[symmetric]]
  have k: "generateKey ''complexSearch'' (searchKeyParams ''pasta'' pastaOptions)
       = ''complexSearch:{'' @ [CHR 0x22] @ ''number'' @ [CHR 0x22] @ '':5,'' @ [CHR 0x22]
            @ ''query'' @ [CHR 0x22] @ '':'' @ [CHR 0x22] @ ''pasta'' @ [CHR 0x22] @ ''}''"
    by code_simp
  have c: "map fst (searchCache afterFirstSearch)
       = [generateKey ''complexSearch'' (searchKeyParams ''pasta'' pastaOptions)]"
    using t by simp
  have l: "requestLog freshState = []" by (simp add: freshState_def)
  show ?thesis
    using t c l unfolding k by simp
qed

lemma getRecipeDetails_effect:
  "usageStore (snd (getRecipeDetails env network rid s)) = usageStore s
   \<and> searchCache (snd (getRecipeDetails env network rid s)) = searchCache s
   \<and> requestLog (snd (getRecipeDetails env network rid s))
       = (if isApiConfigured env
          then requestLog s @ [(''/'' @ showInt rid @ ''/information'',
                                [(''includeNutrition'', JBool True)])]
          else requestLog s)"
proof (cases "isApiConfigured env")
  case False
  then show ?thesis by (simp add: getRecipeDetails_def)
next
  case True
  then show ?thesis
    unfolding getRecipeDetails_def Let_def
    by (simp split: response.splits option.splits split del: if_split)
qed

lemma getRandomRecipes_effect:
  "usageStore (snd (getRandomRecipes env network n s)) = usageStore s
   \<and> searchCache (snd (getRandomRecipes env network n s)) = searchCache s
   \<and> length (requestLog (snd (getRandomRecipes env network n s)))
       = (if isApiConfigured env then Suc (length (requestLog s)) else length (requestLog s))"
proof (cases "isApiConfigured env")
  case False
  then show ?thesis by (simp add: getRandomRecipes_def)
next
  case True
  then show ?thesis
    unfolding getRandomRecipes_def Let_def
    by (simp split: response.splits option.splits split del: if_split)
qed

lemma findRecipesByIngredients_effect:
  "usageStore (snd (findRecipesByIngredients env network xs options s)) = usageStore s
   \<and> searchCache (snd (findRecipesByIngredients env network xs options s)) = searchCache s
   \<and> length (requestLog (snd (findRecipesByIngredients env network xs options s)))
       = (if isApiConfigured env then Suc (length (requestLog s)) else length (requestLog s))"
proof (cases "isApiConfigured env")
  case False
  then show ?thesis by (simp add: findRecipesByIngredients_def)
next
  case True
  then show ?thesis
    unfolding findRecipesByIngredients_def Let_def
    by (simp split: response.splits option.splits split del: if_split)
qed

text \<open>
  Claim C1, where the code departs from it. \<^verbatim>\<open>getRecipeDetails\<close>,
  \<^verbatim>\<open>getRandomRecipes\<close> and \<^verbatim>\<open>findRecipesByIngredients\<close> send one request
  whenever the credential is configured, and whatever the network answers
  they leave the stored ledger as it was: a success counts no call, a
  failure counts no error. Only \<^verbatim>\<open>searchRecipes\<close> calls \<^verbatim>\<open>recordCall\<close>.
\<close>

theorem network_attempts_not_recorded:
  "usageStore (snd (getRecipeDetails env network1 rid s)) = usageStore s
   \<and> length (requestLog (snd (getRecipeDetails env network1 rid s)))
       = (if isApiConfigured env then Suc (length (requestLog s)) else length (requestLog s))
   \<and> usageStore (snd (getRandomRecipes env network2 n s)) = usageStore s
   \<and> length (requestLog (snd (getRandomRecipes env network2 n s)))
       = (if isApiConfigured env then Suc (length (requestLog s)) else length (requestLog s))
   \<and> usageStore (snd (findRecipesByIngredients env network3 xs options s)) = usageStore s
   \<and> length (requestLog (snd (findRecipesByIngredients env network3 xs options s)))
       = (if isApiConfigured env then Suc (length (requestLog s)) else length (requestLog s))"
  using getRecipeDetails_effect[of env network1 rid s]
    getRandomRecipes_effect[of env network2 n s]
    findRecipesByIngredients_effect[of env network3 xs options s]
  by simp

theorem network_attempts_not_recorded_witness:
  "fst (getRecipeDetails configuredEnv detailsNetwork 716429 freshState) = Inr apiRecipe
   \<and> requestLog (snd (getRecipeDetails configuredEnv detailsNetwork 716429 freshState))
       = [(''/716429/information'', [(''includeNutrition'', JBool True)])]
   \<and> calls (getUsageData
               (usageStore (snd (getRecipeDetails configuredEnv detailsNetwork 716429 freshState)))
               todayClock) = 0
   \<and> fst (getRecipeDetails configuredEnv failingNetwork 716429 freshState)
       = Inl (RequestError (Some 500))
   \<and> errors (getUsageData
                (usageStore (snd (getRecipeDetails configuredEnv failingNetwork 716429 freshState)))
                todayClock) = 0"
proof -
  note t1 = network_attempts_not_recorded[where env=configuredEnv and ?network1.0=detailsNetwork
      and rid=716429
      and s=freshState, THEN conjunct1]
  note t2 = network_attempts_not_recorded[where env=configuredEnv and ?network1.0=failingNetwork
      and rid=716429
      and s=freshState, THEN conjunct1]
  have z: "calls (getUsageData (usageStore freshState) todayClock) = 0"
          "errors (getUsageData (usageStore freshState) todayClock) = 0"
    by (simp_all add: freshState_def getUsageData_def createNewUsageData_def)
  have a: "fst (getRecipeDetails configuredEnv detailsNetwork 716429 freshState) = Inr apiRecipe"
    by (simp add: getRecipeDetails_def configuredEnv_ok detailsNetwork_def Let_def)
  have n: "showInt 716429 = ''716429''" by code_simp
  have b: "requestLog (snd (getRecipeDetails configuredEnv detailsNetwork 716429 freshState))
       = [(''/716429/information'', [(''includeNutrition'', JBool True)])]"
    using getRecipeDetails_effect[of configuredEnv detailsNetwork 716429 freshState]
    by (simp add: configuredEnv_ok n freshState_def)
  have c: "fst (getRecipeDetails configuredEnv failingNetwork 716429 freshState)
       = Inl (RequestError (Some 500))"
    by (simp add: getRecipeDetails_def configuredEnv_ok failingNetwork_def Let_def)
  show ?thesis
    unfolding t1 t2 using z a b c by simp
qed

section \<open>Scoring recipes by ingredients\<close>















end
